theory Spec2Isabelle
  imports Main
begin

section \<open>Python values used by the bot\<close>

text \<open>
  The bot is one Python module, \<^verbatim>\<open>main.py\<close>. Its three notification jobs
  (\<^verbatim>\<open>check_prayer_times\<close>, \<^verbatim>\<open>send_daily_prayer_schedule\<close>,
  \<^verbatim>\<open>send_daily_quote\<close>) run every 60 seconds over process-wide
  dictionaries. Exceptions are values of the type \<open>error\<close>; a function that can
  raise returns \<open>error + 'a\<close>.

  The source writes the prayer names and the city names in Cyrillic. Strings are byte
  lists here, so those literals are transliterated; nothing below depends on their
  spelling.
\<close>

datatype error = ValueError | TypeError | KeyError | UnknownTimeZoneError | TelegramError

subsection \<open>\<^verbatim>\<open>str.split\<close>\<close>

text \<open>\<^verbatim>\<open>s.split(sep)\<close> for a one-character separator: never the empty list.\<close>

fun split_on :: "char \<Rightarrow> string \<Rightarrow> string list" where
  "split_on c [] = [[]]"
| "split_on c (x # xs) =
     (if x = c then [] # split_on c xs
      else (case split_on c xs of
              [] \<Rightarrow> [[x]]
            | p # ps \<Rightarrow> (x # p) # ps))"

subsection \<open>Decimal digits, \<^verbatim>\<open>int(str)\<close> and \<^verbatim>\<open>str(int)\<close>\<close>

definition is_digit :: "char \<Rightarrow> bool" where
  "is_digit c = (48 \<le> (of_char c :: nat) \<and> (of_char c :: nat) \<le> 57)"

definition digit_val :: "char \<Rightarrow> nat" where
  "digit_val c = of_char c - 48"

definition digit_char :: "nat \<Rightarrow> char" where
  "digit_char n = char_of (48 + n)"

text \<open>The ASCII white space that \<^verbatim>\<open>int()\<close> skips on both sides.\<close>

definition is_space :: "char \<Rightarrow> bool" where
  "is_space c = ((of_char c :: nat) \<in> {9, 10, 11, 12, 13, 32})"

definition py_strip :: "string \<Rightarrow> string" where
  "py_strip s = rev (dropWhile is_space (rev (dropWhile is_space s)))"

text \<open>
  The digits of an integer literal: groups of decimal digits, single underscores
  allowed between groups.
\<close>

definition parse_digits :: "string \<Rightarrow> nat option" where
  "parse_digits body =
     (let gs = split_on (CHR ''_'') body
      in if list_all (\<lambda>g. g \<noteq> [] \<and> list_all is_digit g) gs
         then Some (foldl (\<lambda>a c. 10 * a + digit_val c) 0 (concat gs))
         else None)"

definition py_int :: "string \<Rightarrow> error + int" where
  "py_int s =
     (let t = py_strip s;
          neg = (case t of [] \<Rightarrow> False | c # _ \<Rightarrow> c = CHR ''-'');
          body = (case t of [] \<Rightarrow> []
                  | c # r \<Rightarrow> if c = CHR ''-'' \<or> c = CHR ''+'' then r else t)
      in case parse_digits body of
           None \<Rightarrow> Inl ValueError
         | Some n \<Rightarrow> Inr (if neg then - int n else int n))"

fun str_nat :: "nat \<Rightarrow> string" where
  "str_nat n = (if n < 10 then [digit_char n] else str_nat (n div 10) @ [digit_char (n mod 10)])"

declare str_nat.simps [simp del]

definition str_int :: "int \<Rightarrow> string" where
  "str_int i = (if i < 0 then CHR ''-'' # str_nat (nat (- i)) else str_nat (nat i))"

text \<open>Zero padding to a width, as \<^verbatim>\<open>%Y\<close>, \<^verbatim>\<open>%m\<close>, \<^verbatim>\<open>%d\<close>, \<^verbatim>\<open>%H\<close>, \<^verbatim>\<open>%M\<close> do.\<close>

definition zpad :: "nat \<Rightarrow> nat \<Rightarrow> string" where
  "zpad w n = replicate (w - length (str_nat n)) (CHR ''0'') @ str_nat n"

subsection \<open>Dates and clock times\<close>

record datetime =
  year :: nat
  month :: nat
  day :: nat
  hour :: nat
  minute :: nat

text \<open>\<^verbatim>\<open>strftime('%Y-%m-%d')\<close>, which is also \<^verbatim>\<open>str(date)\<close>.\<close>

definition strftime_ymd :: "datetime \<Rightarrow> string" where
  "strftime_ymd d = zpad 4 (year d) @ ''-'' @ zpad 2 (month d) @ ''-'' @ zpad 2 (day d)"

text \<open>\<^verbatim>\<open>strftime("%H:%M")\<close>.\<close>

definition strftime_hm :: "datetime \<Rightarrow> string" where
  "strftime_hm d = zpad 2 (hour d) @ '':'' @ zpad 2 (minute d)"

definition is_leap :: "nat \<Rightarrow> bool" where
  "is_leap y = (y mod 4 = 0 \<and> (y mod 100 \<noteq> 0 \<or> y mod 400 = 0))"

definition days_in_month :: "nat \<Rightarrow> nat \<Rightarrow> nat" where
  "days_in_month y m =
     (if m = 2 then (if is_leap y then 29 else 28)
      else if m \<in> {4, 6, 9, 11} then 30 else 31)"

text \<open>
  \<^verbatim>\<open>datetime.strptime(s, '%Y-%m-%d')\<close>: four digits, a hyphen, a month of one or two
  digits, a hyphen, a day of one or two digits, nothing else; then the date must exist.
  Every failure is a \<^verbatim>\<open>ValueError\<close>. The result is a naive datetime at midnight.
\<close>

definition field_ok :: "string \<Rightarrow> bool" where
  "field_ok f = (f \<noteq> [] \<and> length f \<le> 2 \<and> list_all is_digit f)"

definition field_val :: "string \<Rightarrow> nat" where
  "field_val f = foldl (\<lambda>a c. 10 * a + digit_val c) 0 f"

definition strptime_ymd :: "string \<Rightarrow> error + datetime" where
  "strptime_ymd s =
     (case split_on (CHR ''-'') s of
        [y, m, d] \<Rightarrow>
          if length y = 4 \<and> list_all is_digit y \<and> field_ok m \<and> field_ok d
             \<and> 1 \<le> field_val y
             \<and> 1 \<le> field_val m \<and> field_val m \<le> 12
             \<and> 1 \<le> field_val d \<and> field_val d \<le> days_in_month (field_val y) (field_val m)
          then Inr \<lparr>year = field_val y, month = field_val m, day = field_val d,
                    hour = 0, minute = 0\<rparr>
          else Inl ValueError
      | _ \<Rightarrow> Inl ValueError)"

text \<open>
  \<^verbatim>\<open>sum(x * int(t) for x, t in zip([60, 1], s.split(":")))\<close>: the minute of the day
  of a clock time \<^verbatim>\<open>HH:MM\<close>. \<^verbatim>\<open>zip\<close> stops at the shorter list; the first
  \<^verbatim>\<open>int\<close> that fails raises.
\<close>

fun weighted_sum :: "(int \<times> string) list \<Rightarrow> error + int" where
  "weighted_sum [] = Inr 0"
| "weighted_sum ((x, t) # r) =
     (case py_int t of
        Inl e \<Rightarrow> Inl e
      | Inr v \<Rightarrow> (case weighted_sum r of Inl e \<Rightarrow> Inl e | Inr acc \<Rightarrow> Inr (x * v + acc)))"

definition to_minutes :: "string \<Rightarrow> error + int" where
  "to_minutes s = weighted_sum (zip [60, 1] (split_on (CHR '':'') s))"

section \<open>The subscriber table\<close>

text \<open>
  Table \<^verbatim>\<open>subscribers\<close>: \<^verbatim>\<open>chat_id INTEGER PRIMARY KEY\<close>, city, timezone,
  subscribed. A table is the list of its rows, keyed by \<^verbatim>\<open>chat_id\<close>. The flag
  \<open>ok\<close> of an operation is false when \<^verbatim>\<open>sqlite3\<close> raises \<^verbatim>\<open>Error\<close>, which
  each function catches and logs.
\<close>

record subscriber =
  row_city :: string
  row_timezone :: string
  subscribed :: int

type_synonym table = "(int \<times> subscriber) list"

record user =
  chat_id :: int
  city :: string
  tz :: string

definition get_subscribed_users :: "bool \<Rightarrow> table \<Rightarrow> user list" where
  "get_subscribed_users ok t =
     (if ok
      then map (\<lambda>(c, r). \<lparr>chat_id = c, city = row_city r, tz = row_timezone r\<rparr>)
             (filter (\<lambda>(c, r). subscribed r = 1) t)
      else [])"

text \<open>\<^verbatim>\<open>INSERT OR REPLACE ... VALUES (?, ?, ?, 1)\<close>: the row of that key is replaced.\<close>

definition update_user :: "bool \<Rightarrow> table \<Rightarrow> int \<Rightarrow> string \<Rightarrow> string \<Rightarrow> table" where
  "update_user ok t c cty zone =
     (if ok
      then filter (\<lambda>(k, r). k \<noteq> c) t
           @ [(c, \<lparr>row_city = cty, row_timezone = zone, subscribed = 1\<rparr>)]
      else t)"

definition unsubscribe_user :: "bool \<Rightarrow> table \<Rightarrow> int \<Rightarrow> table" where
  "unsubscribe_user ok t c =
     (if ok then map (\<lambda>(k, r). if k = c then (k, r\<lparr>subscribed := 0\<rparr>) else (k, r)) t
      else t)"

definition CITIES :: "(string \<times> string) list" where
  "CITIES =
     [(''Moskva'', ''moscow''), (''Kazan'', ''kazan''), (''Ufa'', ''ufa''),
      (''Sankt-Peterburg'', ''sankt-peterburg''), (''Astana'', ''astana''),
      (''Almaty'', ''almaty''), (''Aktau'', ''aktau''), (''Atyrau'', ''atyrau''),
      (''Karaganda'', ''karaganda''), (''Shymkent'', ''shymkent''),
      (''Kostanay'', ''kostanay''), (''Uralsk'', ''uralsk'')]"

definition CITY_TIMEZONES :: "(string \<times> string) list" where
  "CITY_TIMEZONES =
     [(''moscow'', ''Europe/Moscow''), (''kazan'', ''Europe/Moscow''),
      (''ufa'', ''Asia/Yekaterinburg''), (''sankt-peterburg'', ''Europe/Moscow''),
      (''astana'', ''Asia/Almaty''), (''almaty'', ''Asia/Almaty''),
      (''aktau'', ''Asia/Aqtau''), (''atyrau'', ''Asia/Atyrau''),
      (''karaganda'', ''Asia/Almaty''), (''shymkent'', ''Asia/Almaty''),
      (''kostanay'', ''Asia/Qostanay''), (''uralsk'', ''Asia/Oral'')]"

text \<open>
  The callback \<^verbatim>\<open>set_city\<close>: the city name is the part of the callback data after
  the last underscore; an unknown name raises \<^verbatim>\<open>KeyError\<close> before the table is
  touched.
\<close>

definition set_city :: "bool \<Rightarrow> table \<Rightarrow> int \<Rightarrow> string \<Rightarrow> error + table" where
  "set_city ok t chat data =
     (let city_name = last (split_on (CHR ''_'') data)
      in case map_of CITIES city_name of
           None \<Rightarrow> Inl KeyError
         | Some city_code \<Rightarrow>
             (case map_of CITY_TIMEZONES city_code of
                None \<Rightarrow> Inl KeyError
              | Some zone \<Rightarrow> Inr (update_user ok t chat city_code zone)))"

section \<open>Process-wide state and the outside world\<close>

type_synonym pydict = "(string \<times> string) list"

text \<open>
  Modelled from the spec: \<^verbatim>\<open>TTLCache(maxsize=100, ttl=CACHE_TIMEOUT)\<close> of the
  library \<^verbatim>\<open>cachetools\<close>, whose code is not part of the repository; the type
  \<open>ttl_cache\<close> with \<open>expired\<close>, \<open>cache_get\<close> (\<^verbatim>\<open>key in cache\<close> followed by
  \<^verbatim>\<open>cache[key]\<close>) and \<open>cache_set\<close> (\<^verbatim>\<open>cache[key] = value\<close>). An entry is
  \<open>{key, value, inserted_at}\<close> and expires when \<open>now - inserted_at > TTL\<close>; the cache
  is bounded, and an insertion into a full cache evicts expired entries first, then the
  oldest ones.
\<close>

record cache_entry =
  ce_key :: string
  ce_value :: pydict
  inserted_at :: int

type_synonym ttl_cache = "cache_entry list"

definition CACHE_TIMEOUT :: int where
  "CACHE_TIMEOUT = 3600"

definition MAXSIZE :: nat where
  "MAXSIZE = 100"

definition expired :: "int \<Rightarrow> cache_entry \<Rightarrow> bool" where
  "expired now e = (now - inserted_at e > CACHE_TIMEOUT)"

definition cache_get :: "ttl_cache \<Rightarrow> int \<Rightarrow> string \<Rightarrow> pydict option" where
  "cache_get c now k =
     (case filter (\<lambda>e. ce_key e = k \<and> \<not> expired now e) c of
        [] \<Rightarrow> None
      | e # _ \<Rightarrow> Some (ce_value e))"

definition cache_set :: "ttl_cache \<Rightarrow> int \<Rightarrow> string \<Rightarrow> pydict \<Rightarrow> ttl_cache" where
  "cache_set c now k v =
     (let live = filter (\<lambda>e. \<not> expired now e) c;
          others = filter (\<lambda>e. ce_key e \<noteq> k) live;
          room = (if MAXSIZE \<le> length others
                  then drop (length others + 1 - MAXSIZE) others else others)
      in room @ [\<lparr>ce_key = k, ce_value = v, inserted_at = now\<rparr>])"

text \<open>
  What \<^verbatim>\<open>fetch_url\<close> and \<^verbatim>\<open>BeautifulSoup\<close> yield for a city page: no HTML
  (\<^verbatim>\<open>fetch_url\<close> returned the empty string), an exception inside the
  \<^verbatim>\<open>try\<close>, no table of the expected class, or the stripped cell texts of the
  table's rows.
\<close>

datatype page = NoHtml | PageRaises | NoTable | Rows "string list list"

text \<open>The quote page likewise; \<open>QuoteText\<close> carries the text built from the block.\<close>

datatype quote_page = QNoHtml | QRaises | QNoBlock | QuoteText string

text \<open>A message is kept by the data it carries, not by its markup.\<close>

datatype message = PrayerMsg string string | ScheduleMsg pydict | QuoteMsg string

datatype log_entry =
    NoSubscribers
  | BadKey string
  | KeyValueError string
  | EmptySchedule string
  | NoFajr string
  | UserFailed int error
  | PageNotLoaded string
  | TableNotFound string
  | DayNotFound string
  | ParseFailed string
  | QuoteFailed string
  | QuoteUnavailable
  | JobFailed error

text \<open>
  The world as one run of a job sees it: the subscriber table, the clocks, the two
  providers and the delivery channel. \<open>local_now zone\<close> is
  \<^verbatim>\<open>datetime.now(pytz.timezone(zone))\<close>, \<open>None\<close> when \<^verbatim>\<open>pytz\<close> does not
  know the zone; \<open>deliver chat msg\<close> is false when \<^verbatim>\<open>send_message\<close> raises.
  A run is taken to see one instant.
\<close>

record env =
  db :: table
  db_ok :: bool
  utc_now :: datetime
  sys_today :: datetime
  local_now :: "string \<Rightarrow> datetime option"
  clock :: int
  fetch_page :: "string \<Rightarrow> page"
  fetch_quote :: "string \<Rightarrow> quote_page"
  deliver :: "int \<Rightarrow> message \<Rightarrow> bool"

text \<open>
  The globals \<^verbatim>\<open>cache\<close>, \<^verbatim>\<open>sent_notifications\<close> and
  \<^verbatim>\<open>sent_daily_schedules\<close> (dictionaries whose values are all \<^verbatim>\<open>True\<close>: the
  list of their keys, in insertion order), the messages delivered so far, the URLs
  requested from the providers, and the warnings and errors logged.
\<close>

record state =
  cache :: ttl_cache
  sent_notifications :: "string list"
  sent_daily_schedules :: "string list"
  outbox :: "(int \<times> message) list"
  fetches :: "string list"
  log :: "log_entry list"

definition logmsg :: "log_entry \<Rightarrow> state \<Rightarrow> state" where
  "logmsg l st = st\<lparr>log := log st @ [l]\<rparr>"

text \<open>\<^verbatim>\<open>post_init\<close> resets both ledgers; the cache starts empty.\<close>

definition init_state :: state where
  "init_state = \<lparr>cache = [], sent_notifications = [], sent_daily_schedules = [],
                  outbox = [], fetches = [], log = []\<rparr>"

section \<open>Schedule and quote retrieval\<close>

definition PRAYER_NAMES :: "string list" where
  "PRAYER_NAMES = [''Fajr'', ''Shuruk'', ''Zuhr'', ''Asr'', ''Maghrib'', ''Isha'']"

text \<open>
  The loop over the table rows of \<^verbatim>\<open>parse_prayer_times\<close>: the first row with at
  least eight cells whose first cell is the day of the month gives the schedule.
\<close>

fun find_row :: "string \<Rightarrow> string list list \<Rightarrow> pydict option" where
  "find_row d [] = None"
| "find_row d (cols # rows) =
     (if 8 \<le> length cols \<and> cols ! 0 = d
      then Some [(''Fajr'', cols ! 2), (''Shuruk'', cols ! 3), (''Zuhr'', cols ! 4),
                 (''Asr'', cols ! 5), (''Maghrib'', cols ! 6), (''Isha'', cols ! 7)]
      else find_row d rows)"

definition schedule_url :: "string \<Rightarrow> string" where
  "schedule_url cty = ''https://umma.ru/raspisanie-namaza/'' @ cty"

definition parse_prayer_times :: "env \<Rightarrow> string \<Rightarrow> datetime \<Rightarrow> state \<Rightarrow> pydict \<times> state" where
  "parse_prayer_times e cty date st =
     (let cache_key = cty @ ''_'' @ strftime_ymd date
      in case cache_get (cache st) (clock e) cache_key of
           Some v \<Rightarrow> (v, st)
         | None \<Rightarrow>
             (let st1 = st\<lparr>fetches := fetches st @ [schedule_url cty]\<rparr>
              in case fetch_page e cty of
                   NoHtml \<Rightarrow> ([], logmsg (PageNotLoaded cty) st1)
                 | PageRaises \<Rightarrow> ([], logmsg (ParseFailed cty) st1)
                 | NoTable \<Rightarrow> ([], logmsg (TableNotFound cty) st1)
                 | Rows rows \<Rightarrow>
                     (case find_row (str_nat (day date)) rows of
                        None \<Rightarrow> ([], logmsg (DayNotFound cty) st1)
                      | Some schedule \<Rightarrow>
                          (schedule,
                           st1\<lparr>cache := cache_set (cache st1) (clock e) cache_key schedule\<rparr>))))"

definition quote_urls :: "(string \<times> string) list" where
  "quote_urls = [(''ayat'', ''https://umma.ru/ayat-dnya''), (''hadis'', ''https://umma.ru/hadis-dnya'')]"

definition get_daily_quote :: "env \<Rightarrow> string \<Rightarrow> state \<Rightarrow> pydict \<times> state" where
  "get_daily_quote e quote_type st =
     (let cache_key = quote_type @ ''_'' @ strftime_ymd (sys_today e)
      in case cache_get (cache st) (clock e) cache_key of
           Some v \<Rightarrow> (v, st)
         | None \<Rightarrow>
             (case map_of quote_urls quote_type of
                None \<Rightarrow> ([], logmsg (QuoteFailed quote_type) st)
              | Some url \<Rightarrow>
                  (let st1 = st\<lparr>fetches := fetches st @ [url]\<rparr>
                   in case fetch_quote e quote_type of
                        QNoHtml \<Rightarrow> ([], st1)
                      | QRaises \<Rightarrow> ([], logmsg (QuoteFailed quote_type) st1)
                      | QNoBlock \<Rightarrow> ([], logmsg (QuoteFailed quote_type) st1)
                      | QuoteText text \<Rightarrow>
                          (let result = [(''text'', text)]
                           in (result,
                               st1\<lparr>cache := cache_set (cache st1) (clock e) cache_key result\<rparr>)))))"

section \<open>The prayer-time job\<close>

text \<open>\<^verbatim>\<open>now - datetime.timedelta(days=1)\<close>, on the calendar fields.\<close>

definition minus_one_day :: "datetime \<Rightarrow> datetime" where
  "minus_one_day d =
     (if 1 < day d then d\<lparr>day := day d - 1\<rparr>
      else if 1 < month d
        then d\<lparr>month := month d - 1, day := days_in_month (year d) (month d - 1)\<rparr>
      else d\<lparr>year := year d - 1, month := 12, day := 31\<rparr>)"

text \<open>
  \<^verbatim>\<open>strptime(...) > cutoff_date\<close>: the left side is a naive datetime, the right side
  comes from \<^verbatim>\<open>datetime.now(pytz.utc)\<close> and is aware. Python refuses to order the
  two and raises \<^verbatim>\<open>TypeError\<close>.
\<close>

definition naive_gt_aware :: "datetime \<Rightarrow> datetime \<Rightarrow> error + bool" where
  "naive_gt_aware parsed cutoff = Inl TypeError"

text \<open>
  The pruning loop of \<^verbatim>\<open>check_prayer_times\<close>. Its \<^verbatim>\<open>except ValueError\<close>
  catches a failed \<^verbatim>\<open>strptime\<close>; a \<^verbatim>\<open>TypeError\<close> leaves the job. The result
  is the kept keys and what was logged.
\<close>

fun clean_notifications :: "datetime \<Rightarrow> string list \<Rightarrow> error + (string list \<times> log_entry list)" where
  "clean_notifications cutoff_date [] = Inr ([], [])"
| "clean_notifications cutoff_date (k # ks) =
     (let date_part = hd (split_on (CHR ''-'') k)
      in if length date_part = 10 \<and> date_part ! 4 = CHR ''-'' \<and> date_part ! 7 = CHR ''-''
         then (case strptime_ymd date_part of
                 Inl err \<Rightarrow>
                   (case clean_notifications cutoff_date ks of
                      Inl err' \<Rightarrow> Inl err'
                    | Inr (kept, lg) \<Rightarrow> Inr (kept, KeyValueError k # lg))
               | Inr parsed \<Rightarrow>
                   (case naive_gt_aware parsed cutoff_date of
                      Inl err \<Rightarrow> Inl err
                    | Inr newer \<Rightarrow>
                        (case clean_notifications cutoff_date ks of
                           Inl err' \<Rightarrow> Inl err'
                         | Inr (kept, lg) \<Rightarrow> Inr (if newer then k # kept else kept, lg))))
         else (case clean_notifications cutoff_date ks of
                 Inl err' \<Rightarrow> Inl err'
               | Inr (kept, lg) \<Rightarrow> Inr (kept, BadKey k # lg)))"

definition notification_id :: "datetime \<Rightarrow> string \<Rightarrow> int \<Rightarrow> string" where
  "notification_id today prayer chat =
     strftime_ymd today @ ''-'' @ prayer @ ''-'' @ str_int chat"

text \<open>
  The loop over \<^verbatim>\<open>schedule.items()\<close> for one user. An exception stops the loop
  and reaches the handler of the user loop; what was sent and marked before stays.
\<close>

fun notify_loop :: "env \<Rightarrow> user \<Rightarrow> datetime \<Rightarrow> pydict \<Rightarrow> state \<Rightarrow> state \<times> error option" where
  "notify_loop e u now [] st = (st, None)"
| "notify_loop e u now ((prayer, time) # rest) st =
     (case to_minutes time of
        Inl err \<Rightarrow> (st, Some err)
      | Inr prayer_minutes \<Rightarrow>
          (case to_minutes (strftime_hm now) of
             Inl err \<Rightarrow> (st, Some err)
           | Inr current_minutes \<Rightarrow>
               (let time_diff = prayer_minutes - current_minutes;
                    nid = notification_id now prayer (chat_id u)
                in if time_diff = 0 \<and> nid \<notin> set (sent_notifications st)
                   then (if deliver e (chat_id u) (PrayerMsg prayer time)
                         then notify_loop e u now rest
                                (st\<lparr>outbox := outbox st @ [(chat_id u, PrayerMsg prayer time)],
                                    sent_notifications := sent_notifications st @ [nid]\<rparr>)
                         else (st, Some TelegramError))
                   else notify_loop e u now rest st)))"

text \<open>The body of the user loop, with its \<^verbatim>\<open>except Exception\<close>.\<close>

definition check_user :: "env \<Rightarrow> user \<Rightarrow> state \<Rightarrow> state" where
  "check_user e u st =
     (case local_now e (tz u) of
        None \<Rightarrow> logmsg (UserFailed (chat_id u) UnknownTimeZoneError) st
      | Some now \<Rightarrow>
          (case parse_prayer_times e (city u) now st of
             (schedule, st1) \<Rightarrow>
               if schedule = [] then logmsg (EmptySchedule (city u)) st1
               else (case notify_loop e u now schedule st1 of
                       (st2, None) \<Rightarrow> st2
                     | (st2, Some err) \<Rightarrow> logmsg (UserFailed (chat_id u) err) st2)))"

fun check_users :: "env \<Rightarrow> user list \<Rightarrow> state \<Rightarrow> state" where
  "check_users e [] st = st"
| "check_users e (u # us) st = check_users e us (check_user e u st)"

definition check_prayer_times :: "env \<Rightarrow> state \<Rightarrow> error + state" where
  "check_prayer_times e st =
     (let users = get_subscribed_users (db_ok e) (db e)
      in if users = [] then Inr (logmsg NoSubscribers st)
         else (let cutoff_date = minus_one_day (utc_now e)
               in case clean_notifications cutoff_date (sent_notifications st) of
                    Inl err \<Rightarrow> Inl err
                  | Inr (cleaned_notifications, lg) \<Rightarrow>
                      Inr (check_users e users
                             (st\<lparr>sent_notifications := cleaned_notifications,
                                 log := log st @ lg\<rparr>))))"

section \<open>The daily-schedule job\<close>

text \<open>
  The pruning comprehension of \<^verbatim>\<open>send_daily_prayer_schedule\<close>. It stands outside
  every \<^verbatim>\<open>try\<close>: an exception leaves the job and the dictionary is not replaced.
\<close>

fun clean_schedules :: "datetime \<Rightarrow> string list \<Rightarrow> error + string list" where
  "clean_schedules cutoff_date [] = Inr []"
| "clean_schedules cutoff_date (k # ks) =
     (case strptime_ymd (hd (split_on (CHR ''-'') k)) of
        Inl err \<Rightarrow> Inl err
      | Inr parsed \<Rightarrow>
          (case naive_gt_aware parsed cutoff_date of
             Inl err \<Rightarrow> Inl err
           | Inr newer \<Rightarrow>
               (case clean_schedules cutoff_date ks of
                  Inl err \<Rightarrow> Inl err
                | Inr kept \<Rightarrow> Inr (if newer then k # kept else kept))))"

definition schedule_id :: "datetime \<Rightarrow> int \<Rightarrow> string" where
  "schedule_id today chat = strftime_ymd today @ ''-'' @ str_int chat"

definition digest_user :: "env \<Rightarrow> datetime \<Rightarrow> user \<Rightarrow> state \<Rightarrow> state" where
  "digest_user e today u st =
     (case local_now e (tz u) of
        None \<Rightarrow> logmsg (UserFailed (chat_id u) UnknownTimeZoneError) st
      | Some now \<Rightarrow>
          (case parse_prayer_times e (city u) today st of
             (schedule, st1) \<Rightarrow>
               if schedule = [] then logmsg (EmptySchedule (city u)) st1
               else (case map_of schedule ''Fajr'' of
                       None \<Rightarrow> logmsg (NoFajr (city u)) st1
                     | Some fajr_time \<Rightarrow>
                         if fajr_time = [] then logmsg (NoFajr (city u)) st1
                         else (case to_minutes fajr_time of
                                 Inl err \<Rightarrow> logmsg (UserFailed (chat_id u) err) st1
                               | Inr fajr_minutes \<Rightarrow>
                                   (case to_minutes (strftime_hm now) of
                                      Inl err \<Rightarrow> logmsg (UserFailed (chat_id u) err) st1
                                    | Inr current_minutes \<Rightarrow>
                                        (let time_diff = fajr_minutes - current_minutes;
                                             sid = schedule_id today (chat_id u)
                                         in if time_diff = 10 \<and> sid \<notin> set (sent_daily_schedules st1)
                                            then (if deliver e (chat_id u) (ScheduleMsg schedule)
                                                  then st1\<lparr>outbox := outbox st1 @ [(chat_id u, ScheduleMsg schedule)],
                                                           sent_daily_schedules := sent_daily_schedules st1 @ [sid]\<rparr>
                                                  else logmsg (UserFailed (chat_id u) TelegramError) st1)
                                            else st1))))))"

fun digest_users :: "env \<Rightarrow> datetime \<Rightarrow> user list \<Rightarrow> state \<Rightarrow> state" where
  "digest_users e today [] st = st"
| "digest_users e today (u # us) st = digest_users e today us (digest_user e today u st)"

definition send_daily_prayer_schedule :: "env \<Rightarrow> state \<Rightarrow> error + state" where
  "send_daily_prayer_schedule e st =
     (let users = get_subscribed_users (db_ok e) (db e)
      in if users = [] then Inr (logmsg NoSubscribers st)
         else (let now = utc_now e;
                   today = now;
                   cutoff_date = minus_one_day now
               in case clean_schedules cutoff_date (sent_daily_schedules st) of
                    Inl err \<Rightarrow> Inl err
                  | Inr kept \<Rightarrow>
                      Inr (digest_users e today users (st\<lparr>sent_daily_schedules := kept\<rparr>))))"

section \<open>The daily-quote job\<close>

definition quote_user :: "env \<Rightarrow> pydict \<Rightarrow> user \<Rightarrow> state \<Rightarrow> state" where
  "quote_user e quote u st =
     (case local_now e (tz u) of
        None \<Rightarrow> logmsg (UserFailed (chat_id u) UnknownTimeZoneError) st
      | Some now \<Rightarrow>
          if strftime_hm now = ''08:00''
          then (case map_of quote ''text'' of
                  None \<Rightarrow> logmsg (UserFailed (chat_id u) KeyError) st
                | Some text \<Rightarrow>
                    if deliver e (chat_id u) (QuoteMsg text)
                    then st\<lparr>outbox := outbox st @ [(chat_id u, QuoteMsg text)]\<rparr>
                    else logmsg (UserFailed (chat_id u) TelegramError) st)
          else st)"

fun quote_users :: "env \<Rightarrow> pydict \<Rightarrow> user list \<Rightarrow> state \<Rightarrow> state" where
  "quote_users e quote [] st = st"
| "quote_users e quote (u # us) st = quote_users e quote us (quote_user e quote u st)"

definition send_daily_quote :: "env \<Rightarrow> state \<Rightarrow> state" where
  "send_daily_quote e st =
     (let users = get_subscribed_users (db_ok e) (db e)
      in if users = [] then logmsg NoSubscribers st
         else (case get_daily_quote e ''ayat'' st of
                 (quote, st1) \<Rightarrow>
                   if quote = [] then logmsg QuoteUnavailable st1
                   else quote_users e quote users st1))"

section \<open>The job queue\<close>

text \<open>
  \<^verbatim>\<open>run_repeating\<close> calls the three jobs again and again. An exception that leaves
  a job is logged by the queue and the process goes on with the globals as they were.
\<close>

datatype job = CheckPrayerTimes | DailySchedule | DailyQuote

definition run_job :: "job \<Rightarrow> env \<Rightarrow> state \<Rightarrow> state" where
  "run_job j e st =
     (case j of
        CheckPrayerTimes \<Rightarrow>
          (case check_prayer_times e st of Inl err \<Rightarrow> logmsg (JobFailed err) st | Inr st' \<Rightarrow> st')
      | DailySchedule \<Rightarrow>
          (case send_daily_prayer_schedule e st of
             Inl err \<Rightarrow> logmsg (JobFailed err) st
           | Inr st' \<Rightarrow> st')
      | DailyQuote \<Rightarrow> send_daily_quote e st)"

fun run_jobs :: "(job \<times> env) list \<Rightarrow> state \<Rightarrow> state" where
  "run_jobs [] st = st"
| "run_jobs ((j, e) # js) st = run_jobs js (run_job j e st)"

section \<open>Notions of the specification\<close>

text \<open>
  A valid 24-hour time as the specification means it: hours below 24 and minutes below
  60, each of one or two digits, around a colon.
\<close>

definition valid_24h_time :: "string \<Rightarrow> bool" where
  "valid_24h_time s =
     (case split_on (CHR '':'') s of
        [h, m] \<Rightarrow> field_ok h \<and> field_ok m \<and> field_val h < 24 \<and> field_val m < 60
      | _ \<Rightarrow> False)"

fun is_schedule_msg :: "message \<Rightarrow> bool" where
  "is_schedule_msg (ScheduleMsg s) = True"
| "is_schedule_msg (PrayerMsg p t) = False"
| "is_schedule_msg (QuoteMsg q) = False"

text \<open>
  The daily digests among the delivered messages, and what holds of them after any run
  of the jobs: no digest has been sent while the digest ledger is empty, and no chat
  has received two.
\<close>

definition digests :: "state \<Rightarrow> (int \<times> message) list" where
  "digests st = filter (\<lambda>x. is_schedule_msg (snd x)) (outbox st)"

definition digest_inv :: "state \<Rightarrow> bool" where
  "digest_inv st =
     ((sent_daily_schedules st \<noteq> [] \<or> digests st = []) \<and> distinct (map fst (digests st)))"

text \<open>
  What the cache holds in every state the jobs reach: under each key either a dict
  with the six prayer names, or, under a key that begins with a quote kind and an
  underscore, whatever \<open>get_daily_quote\<close> stored.
\<close>

definition quote_key :: "string \<Rightarrow> bool" where
  "quote_key k = list_ex (\<lambda>qt. take (Suc (length qt)) k = qt @ ''_'') (map fst quote_urls)"

definition cache_inv :: "ttl_cache \<Rightarrow> bool" where
  "cache_inv c =
     list_all (\<lambda>en. map fst (ce_value en) = PRAYER_NAMES \<or> quote_key (ce_key en)) c"

section \<open>Example inputs\<close>

text \<open>
  Subscribers in Moscow time and a provider page whose row for the 15th has Fajr at
  04:37. \<open>example_env t h m\<close> is the world at local time \<open>h:m\<close> on 2024-01-15,
  with a working provider and delivery channel; \<open>offline_env\<close> has no provider,
  \<open>dashes_env\<close> a provider whose cells are not clock times, in \<open>flaky_env\<close>
  every send to chat 42 raises, and in \<open>two_city_env\<close> the page of Kazan has Fajr at
  04:50.
\<close>

definition one_subscriber :: table where
  "one_subscriber =
     [(42, \<lparr>row_city = ''moscow'', row_timezone = ''Europe/Moscow'', subscribed = 1\<rparr>)]"

definition two_subscribers :: table where
  "two_subscribers =
     [(42, \<lparr>row_city = ''moscow'', row_timezone = ''Europe/Moscow'', subscribed = 1\<rparr>),
      (43, \<lparr>row_city = ''kazan'', row_timezone = ''Europe/Moscow'', subscribed = 1\<rparr>)]"

definition example_page :: page where
  "example_page =
     Rows [[''14'', ''Sun'', ''04:36'', ''06:09'', ''12:30'', ''14:00'', ''16:29'', ''18:19''],
           [''15'', ''Mon'', ''04:37'', ''06:10'', ''12:30'', ''14:00'', ''16:30'', ''18:20'']]"

definition example_env :: "table \<Rightarrow> nat \<Rightarrow> nat \<Rightarrow> env" where
  "example_env t h m =
     \<lparr>db = t,
      db_ok = True,
      utc_now = \<lparr>year = 2024, month = 1, day = 15, hour = h - 3, minute = m\<rparr>,
      sys_today = \<lparr>year = 2024, month = 1, day = 15, hour = 0, minute = 0\<rparr>,
      local_now = (\<lambda>zone. if zone = ''Europe/Moscow''
                     then Some \<lparr>year = 2024, month = 1, day = 15, hour = h, minute = m\<rparr>
                     else None),
      clock = 1000,
      fetch_page = (\<lambda>cty. example_page),
      fetch_quote = (\<lambda>q. QuoteText ''quote of the day''),
      deliver = (\<lambda>c msg. True)\<rparr>"

definition unsubscribed_table :: table where
  "unsubscribed_table = unsubscribe_user True one_subscriber 42"

definition at_time :: "nat \<Rightarrow> nat \<Rightarrow> datetime" where
  "at_time h m = \<lparr>year = 2024, month = 1, day = 15, hour = h, minute = m\<rparr>"

definition example_times :: "datetime list" where
  "example_times = [at_time 4 37, at_time 6 10, at_time 12 30, at_time 14 0,
                    at_time 16 30, at_time 18 20]"

definition moscow_user :: user where
  "moscow_user = \<lparr>chat_id = 42, city = ''moscow'', tz = ''Europe/Moscow''\<rparr>"

definition example_schedule :: pydict where
  "example_schedule =
     [(''Fajr'', ''04:37''), (''Shuruk'', ''06:10''), (''Zuhr'', ''12:30''),
      (''Asr'', ''14:00''), (''Maghrib'', ''16:30''), (''Isha'', ''18:20'')]"

definition warm_state :: state where
  "warm_state =
     init_state\<lparr>cache := [\<lparr>ce_key = ''moscow_2024-01-15'', ce_value = example_schedule,
                              inserted_at = 1000\<rparr>],
                 fetches := [''https://umma.ru/raspisanie-namaza/moscow'']\<rparr>"

definition later_env :: env where
  "later_env = (example_env one_subscriber 5 36)\<lparr>clock := 4599\<rparr>"

definition offline_env :: env where
  "offline_env = (example_env one_subscriber 4 37)\<lparr>fetch_page := (\<lambda>cty. NoHtml),
                                                     fetch_quote := (\<lambda>q. QNoHtml)\<rparr>"

definition dashes_env :: env where
  "dashes_env =
     (example_env one_subscriber 4 37)
       \<lparr>fetch_page := (\<lambda>cty. Rows [[''15'', ''Mon'', ''--'', ''06:10'', ''soon'', ''25:00'',
                                     ''16:30'', ''18:20'']])\<rparr>"

definition kazan_user :: user where
  "kazan_user = \<lparr>chat_id = 43, city = ''kazan'', tz = ''Europe/Moscow''\<rparr>"

definition flaky_env :: env where
  "flaky_env = (example_env two_subscribers 4 37)\<lparr>deliver := (\<lambda>c msg. c \<noteq> 42)\<rparr>"

definition kazan_page :: page where
  "kazan_page =
     Rows [[''15'', ''Mon'', ''04:50'', ''06:23'', ''12:40'', ''14:10'', ''16:40'', ''18:30'']]"

definition kazan_schedule :: pydict where
  "kazan_schedule =
     [(''Fajr'', ''04:50''), (''Shuruk'', ''06:23''), (''Zuhr'', ''12:40''),
      (''Asr'', ''14:10''), (''Maghrib'', ''16:40''), (''Isha'', ''18:30'')]"

definition two_city_env :: "nat \<Rightarrow> nat \<Rightarrow> env" where
  "two_city_env h m =
     (example_env two_subscribers h m)
       \<lparr>fetch_page := (\<lambda>cty. if cty = ''kazan'' then kazan_page else example_page)\<rparr>"

section \<open>Strings, digits and clock times\<close>

lemma split_on_nonempty: "split_on c s \<noteq> []"
  by (induction s) (auto split: list.splits)

lemma hd_split_on_no_sep: "c \<notin> set (hd (split_on c s))"
  by (induction s) (auto split: list.splits)

lemma split_on_no_sep: "c \<notin> set s \<Longrightarrow> split_on c s = [s]"
  by (induction s) auto

lemma of_char_digit_char: "n < 10 \<Longrightarrow> (of_char (digit_char n) :: nat) = 48 + n"
  by (simp add: digit_char_def)

lemma digit_char_eq_iff: "n < 10 \<Longrightarrow> (digit_char n = c) = ((of_char c :: nat) = 48 + n)"
proof
  assume "n < 10" "digit_char n = c"
  then show "(of_char c :: nat) = 48 + n" using of_char_digit_char by blast
next
  assume "n < 10" "(of_char c :: nat) = 48 + n"
  then have "char_of (of_char c :: nat) = char_of (48 + n)" by simp
  then show "digit_char n = c" by (simp add: digit_char_def)
qed

lemma digit_char_numerals:
  "digit_char 0 = CHR ''0''" "digit_char (Suc 0) = CHR ''1''" "digit_char 1 = CHR ''1''"
  "digit_char 2 = CHR ''2''"
  "digit_char 3 = CHR ''3''" "digit_char 4 = CHR ''4''" "digit_char 5 = CHR ''5''"
  "digit_char 6 = CHR ''6''" "digit_char 7 = CHR ''7''" "digit_char 8 = CHR ''8''"
  "digit_char 9 = CHR ''9''"
  by (simp_all add: digit_char_eq_iff)

lemma is_digit_digit_char: "n < 10 \<Longrightarrow> is_digit (digit_char n)"
  by (simp add: is_digit_def of_char_digit_char)

lemma digit_val_digit_char: "n < 10 \<Longrightarrow> digit_val (digit_char n) = n"
  by (simp add: digit_val_def of_char_digit_char)

lemma not_space_digit_char: "n < 10 \<Longrightarrow> \<not> is_space (digit_char n)"
  by (simp add: is_space_def of_char_digit_char)

lemma digit_char_not_punct:
  assumes "n < 10"
  shows "digit_char n \<noteq> CHR ''-''" "digit_char n \<noteq> CHR ''+''" "digit_char n \<noteq> CHR ''_''"
    "digit_char n \<noteq> CHR '':''"
proof -
  have "(of_char (digit_char n) :: nat) \<noteq> of_char c" if "(of_char c :: nat) < 48 \<or> 57 < (of_char c :: nat)" for c
    using that assms by (auto simp: of_char_digit_char)
  then have *: "digit_char n \<noteq> c" if "(of_char c :: nat) < 48 \<or> 57 < (of_char c :: nat)" for c
    using that by blast
  show "digit_char n \<noteq> CHR ''-''" by (rule *) simp
  show "digit_char n \<noteq> CHR ''+''" by (rule *) simp
  show "digit_char n \<noteq> CHR ''_''" by (rule *) simp
  show "digit_char n \<noteq> CHR '':''" by (rule *) simp
qed

lemma str_nat_small: "n < 10 \<Longrightarrow> str_nat n = [digit_char n]"
  by (simp add: str_nat.simps)

lemma str_nat_two: "10 \<le> n \<Longrightarrow> n < 100 \<Longrightarrow> str_nat n = [digit_char (n div 10), digit_char (n mod 10)]"
  by (subst str_nat.simps) (simp add: str_nat_small)

lemma zpad_two: "n < 100 \<Longrightarrow> zpad 2 n = [digit_char (n div 10), digit_char (n mod 10)]"
  by (cases "n < 10") (simp_all add: zpad_def str_nat_small str_nat_two digit_char_numerals)

lemma py_int_two_digits:
  assumes "a < 10" "b < 10"
  shows "py_int [digit_char a, digit_char b] = Inr (int (10 * a + b))"
  using assms
  by (simp add: py_int_def py_strip_def not_space_digit_char digit_char_not_punct
      parse_digits_def is_digit_digit_char digit_val_digit_char)

lemma to_minutes_strftime_hm:
  assumes "hour t < 24" "minute t < 60"
  shows "to_minutes (strftime_hm t) = Inr (int (hour t * 60 + minute t))"
proof -
  have d: "hour t div 10 < 10" "hour t mod 10 < 10" "minute t div 10 < 10" "minute t mod 10 < 10"
    using assms by simp_all
  have "hour t < 100" "minute t < 100" using assms by simp_all
  then have "strftime_hm t = [digit_char (hour t div 10), digit_char (hour t mod 10), CHR '':'',
      digit_char (minute t div 10), digit_char (minute t mod 10)]"
    by (simp add: strftime_hm_def zpad_two)
  then show ?thesis
    using d by (simp add: to_minutes_def digit_char_not_punct py_int_two_digits)
qed

section \<open>Pruning the ledgers\<close>

text \<open>
  The first part of a key split at hyphens contains no hyphen, so it is never ten
  characters with hyphens at positions 4 and 7, and \<^verbatim>\<open>strptime\<close> never accepts it.
\<close>

lemma date_part_never_dated:
  "(length (hd (split_on (CHR ''-'') k)) = 10 \<and> hd (split_on (CHR ''-'') k) ! 4 = CHR ''-''
      \<and> hd (split_on (CHR ''-'') k) ! 7 = CHR ''-'') = False"
proof -
  have "hd (split_on (CHR ''-'') k) ! 4 \<in> set (hd (split_on (CHR ''-'') k))"
    if "length (hd (split_on (CHR ''-'') k)) = 10"
    using that by (intro nth_mem) simp
  then show ?thesis
    using hd_split_on_no_sep [of "CHR ''-''" k] by metis
qed

lemma clean_notifications_drops_all:
  "clean_notifications cutoff ks = Inr ([], map BadKey ks)"
  by (induction ks) (simp_all add: Let_def date_part_never_dated)

lemma strptime_ymd_no_hyphen: "CHR ''-'' \<notin> set s \<Longrightarrow> strptime_ymd s = Inl ValueError"
  by (simp add: strptime_ymd_def split_on_no_sep)

lemma clean_schedules_raises: "clean_schedules cutoff (k # ks) = Inl ValueError"
  by (simp add: strptime_ymd_no_hyphen hd_split_on_no_sep)

lemmas eval_simps =
  run_job_def check_prayer_times_def get_subscribed_users_def clean_notifications_drops_all
  check_user_def parse_prayer_times_def cache_get_def cache_set_def expired_def CACHE_TIMEOUT_def MAXSIZE_def
  logmsg_def init_state_def schedule_url_def
  strftime_ymd_def strftime_hm_def zpad_def str_nat.simps digit_char_numerals str_int_def
  notification_id_def to_minutes_def py_int_def py_strip_def is_space_def parse_digits_def
  is_digit_def digit_val_def Let_def


text \<open>
  C1. Two runs of \<open>check_prayer_times\<close> in the same minute, for a subscriber whose
  Fajr is due in that minute: the first run sends and marks the key; the second run
  prunes the key away and sends the notification again.
\<close>

theorem same_minute_second_pass_sends_again:
  "sent_notifications
     (run_jobs [(CheckPrayerTimes, example_env one_subscriber 4 37)] init_state)
     = [''2024-01-15-Fajr-42'']
   \<and> outbox
       (run_jobs [(CheckPrayerTimes, example_env one_subscriber 4 37),
                  (CheckPrayerTimes, example_env one_subscriber 4 37)] init_state)
     = [(42, PrayerMsg ''Fajr'' ''04:37''), (42, PrayerMsg ''Fajr'' ''04:37'')]"
  by (simp add: example_env_def one_subscriber_def example_page_def eval_simps)

text \<open>
  C2. The pruning of \<open>check_prayer_times\<close> at noon of 2024-01-15 drops a key that was
  inserted the same day, and the job goes on with an empty ledger.
\<close>

theorem prune_drops_same_day_key:
  "clean_notifications (minus_one_day (utc_now (example_env one_subscriber 12 0)))
     [''2024-01-15-Fajr-42''] = Inr ([], [BadKey ''2024-01-15-Fajr-42''])
   \<and> sent_notifications
       (run_job CheckPrayerTimes (example_env one_subscriber 12 0)
          (init_state\<lparr>sent_notifications := [''2024-01-15-Fajr-42'']\<rparr>)) = []"
  by (simp add: example_env_def one_subscriber_def example_page_def eval_simps)

text \<open>
  C4. The pruning of \<open>send_daily_prayer_schedule\<close> with a key in the ledger that does
  not parse into a date: \<^verbatim>\<open>ValueError\<close> leaves the job.
\<close>

theorem digest_prune_raises:
  "send_daily_prayer_schedule (example_env one_subscriber 12 0)
     (init_state\<lparr>sent_daily_schedules := [''2024-01-15-42'']\<rparr>) = Inl ValueError"
  by (simp add: send_daily_prayer_schedule_def get_subscribed_users_def example_env_def
      one_subscriber_def clean_schedules_raises del: clean_schedules.simps)

section \<open>Choosing a city\<close>

lemma length_split_on: "length (split_on c s) = Suc (length (filter (\<lambda>x. x = c) s))"
  by (induction s) (auto split: list.splits)

lemma last_split_on_append:
  "last (split_on c (xs @ c # s)) = last (split_on c s)"
proof (induction xs)
  case Nil
  then show ?case by (simp add: split_on_nonempty)
next
  case (Cons x xs)
  have "2 \<le> length (split_on c (xs @ c # s))"
    by (simp add: length_split_on)
  then obtain p q ps where "split_on c (xs @ c # s) = p # q # ps"
    by (cases "split_on c (xs @ c # s)"; cases "tl (split_on c (xs @ c # s))") auto
  with Cons show ?case by auto
qed

lemma last_split_on_plain: "c \<notin> set s \<Longrightarrow> last (split_on c (xs @ c # s)) = s"
  by (simp add: last_split_on_append split_on_no_sep)

lemma city_names_plain:
  assumes "map_of CITIES name = Some code"
  shows "CHR ''_'' \<notin> set name"
    and "map_of CITY_TIMEZONES code \<noteq> None"
proof -
  from assms have "(name, code) \<in> set CITIES" by (rule map_of_SomeD)
  then show "CHR ''_'' \<notin> set name" and "map_of CITY_TIMEZONES code \<noteq> None"
    by (auto simp: CITIES_def CITY_TIMEZONES_def)
qed

lemma map_of_update_user:
  "map_of (update_user True t c cty zone) c
     = Some \<lparr>row_city = cty, row_timezone = zone, subscribed = 1\<rparr>"
proof -
  have "map_of (filter (\<lambda>(k, r). k \<noteq> c) t) c = None"
    by (induction t) auto
  then show ?thesis
    by (simp add: update_user_def map_add_Some_iff)
qed

lemma subscribed_after_update_user:
  "\<lparr>chat_id = c, city = cty, tz = zone\<rparr> \<in> set (get_subscribed_users True (update_user True t c cty zone))"
  by (simp add: get_subscribed_users_def update_user_def)

text \<open>
  C10. Choosing a city stores the row with \<open>subscribed = 1\<close> whatever the table held
  for that chat before: \<open>set_city\<close> on the callback data of a known city succeeds
  with the table \<open>update_user\<close> gives, in which the chat's row is subscribed and which
  \<open>get_subscribed_users\<close> lists. The witness is a user who had unsubscribed.
\<close>

theorem set_city_resubscribes:
  assumes "map_of CITIES name = Some code"
  shows "\<exists>zone. map_of CITY_TIMEZONES code = Some zone
           \<and> set_city True t chat (''set_city_'' @ name) = Inr (update_user True t chat code zone)
           \<and> map_of (update_user True t chat code zone) chat
               = Some \<lparr>row_city = code, row_timezone = zone, subscribed = 1\<rparr>
           \<and> \<lparr>chat_id = chat, city = code, tz = zone\<rparr>
               \<in> set (get_subscribed_users True (update_user True t chat code zone))"
proof -
  from city_names_plain [OF assms] obtain zone
    where z: "map_of CITY_TIMEZONES code = Some zone" and p: "CHR ''_'' \<notin> set name"
    by auto
  have "last (split_on (CHR ''_'') (''set_city_'' @ name)) = name"
    using last_split_on_plain [OF p, of "''set_city''"] by simp
  then have "set_city True t chat (''set_city_'' @ name) = Inr (update_user True t chat code zone)"
    using assms z by (simp add: set_city_def)
  with z show ?thesis
    using map_of_update_user subscribed_after_update_user by blast
qed

theorem set_city_resubscribes_witness:
  "subscribed (the (map_of unsubscribed_table 42)) = 0
   \<and> get_subscribed_users True unsubscribed_table = []
   \<and> set_city True unsubscribed_table 42 ''set_city_Kazan''
       = Inr [(42, \<lparr>row_city = ''kazan'', row_timezone = ''Europe/Moscow'', subscribed = 1\<rparr>)]
   \<and> get_subscribed_users True
        [(42, \<lparr>row_city = ''kazan'', row_timezone = ''Europe/Moscow'', subscribed = 1\<rparr>)]
       = [\<lparr>chat_id = 42, city = ''kazan'', tz = ''Europe/Moscow''\<rparr>]"
proof -
  have c: "map_of CITIES ''Kazan'' = Some ''kazan''"
    by (simp add: CITIES_def)
  have z: "map_of CITY_TIMEZONES ''kazan'' = Some ''Europe/Moscow''"
    by (simp add: CITY_TIMEZONES_def)
  have u: "update_user True unsubscribed_table 42 ''kazan'' ''Europe/Moscow''
      = [(42, \<lparr>row_city = ''kazan'', row_timezone = ''Europe/Moscow'', subscribed = 1\<rparr>)]"
    by (simp add: update_user_def unsubscribed_table_def unsubscribe_user_def one_subscriber_def)
  from set_city_resubscribes [OF c, of unsubscribed_table 42] z u
  have "set_city True unsubscribed_table 42 ''set_city_Kazan''
       = Inr [(42, \<lparr>row_city = ''kazan'', row_timezone = ''Europe/Moscow'', subscribed = 1\<rparr>)]"
    by auto
  then show ?thesis
    by (simp add: unsubscribed_table_def unsubscribe_user_def one_subscriber_def
        get_subscribed_users_def)
qed

section \<open>Which prayer events are due\<close>

lemma notification_id_inject: "(notification_id d p c = notification_id d p' c) = (p = p')"
  by (simp add: notification_id_def)

lemma notify_loop_valid_times:
  assumes "distinct (map fst ps)"
    and "\<forall>x\<in>set ps. hour (snd x) < 24 \<and> minute (snd x) < 60"
    and "hour now < 24" and "minute now < 60"
    and "\<forall>p\<in>fst ` set ps. notification_id now p (chat_id u) \<notin> set (sent_notifications st)"
    and "\<forall>p t. deliver e (chat_id u) (PrayerMsg p t)"
  shows "notify_loop e u now (map (\<lambda>(p, t). (p, strftime_hm t)) ps) st
     = (st\<lparr>outbox := outbox st
              @ map (\<lambda>(p, t). (chat_id u, PrayerMsg p (strftime_hm t)))
                  (filter (\<lambda>(p, t). hour t * 60 + minute t = hour now * 60 + minute now) ps),
            sent_notifications := sent_notifications st
              @ map (\<lambda>(p, t). notification_id now p (chat_id u))
                  (filter (\<lambda>(p, t). hour t * 60 + minute t = hour now * 60 + minute now) ps)\<rparr>,
        None)"
  using assms
proof (induction ps arbitrary: st)
  case Nil
  then show ?case by simp
next
  case (Cons x ps)
  obtain p t where x: "x = (p, t)" by (cases x)
  from Cons.prems x have t: "hour t < 24" "minute t < 60" by auto
  have tm: "to_minutes (strftime_hm t) = Inr (int (hour t * 60 + minute t))"
    using t by (rule to_minutes_strftime_hm)
  have nm: "to_minutes (strftime_hm now) = Inr (int (hour now * 60 + minute now))"
    using Cons.prems(3,4) by (rule to_minutes_strftime_hm)
  have fresh: "notification_id now p (chat_id u) \<notin> set (sent_notifications st)"
    using Cons.prems(5) x by simp
  have d: "distinct (map fst ps)" "\<forall>x\<in>set ps. hour (snd x) < 24 \<and> minute (snd x) < 60"
    using Cons.prems by simp_all
  show ?case
  proof (cases "hour t * 60 + minute t = hour now * 60 + minute now")
    case True
    let ?st1 = "st\<lparr>outbox := outbox st @ [(chat_id u, PrayerMsg p (strftime_hm t))],
                    sent_notifications := sent_notifications st @ [notification_id now p (chat_id u)]\<rparr>"
    have "\<forall>q\<in>fst ` set ps. notification_id now q (chat_id u) \<notin> set (sent_notifications ?st1)"
      using Cons.prems(1,5) x by (auto simp: notification_id_inject)
    from Cons.IH [OF d Cons.prems(3,4) this Cons.prems(6)]
    show ?thesis
      using True tm nm fresh Cons.prems(6) x by simp
  next
    case False
    have "\<forall>q\<in>fst ` set ps. notification_id now q (chat_id u) \<notin> set (sent_notifications st)"
      using Cons.prems(5) by simp
    from Cons.IH [OF d Cons.prems(3,4) this Cons.prems(6)]
    show ?thesis
      using False tm nm x by simp
  qed
qed

lemma distinct_PRAYER_NAMES: "distinct PRAYER_NAMES"
  by (simp add: PRAYER_NAMES_def)

text \<open>
  C5. For a schedule of the six prayer names with valid clock times and any valid local
  time, the loop over the schedule sends (with no key of the day marked yet and a
  working channel) exactly the notifications of the events whose minute of the day,
  \<open>hour * 60 + minute\<close>, equals the current one, in schedule order; none when no
  event matches.
\<close>

theorem due_events_exact:
  assumes "length evs = 6"
    and "\<forall>t\<in>set evs. hour t < 24 \<and> minute t < 60"
    and "hour now < 24" and "minute now < 60"
    and "\<forall>p\<in>set PRAYER_NAMES. notification_id now p (chat_id u) \<notin> set (sent_notifications st)"
    and "\<forall>p t. deliver e (chat_id u) (PrayerMsg p t)"
  shows "\<exists>st'. notify_loop e u now (zip PRAYER_NAMES (map strftime_hm evs)) st = (st', None)
           \<and> outbox st' = outbox st
               @ map (\<lambda>(p, t). (chat_id u, PrayerMsg p (strftime_hm t)))
                   (filter (\<lambda>(p, t). hour t * 60 + minute t = hour now * 60 + minute now)
                      (zip PRAYER_NAMES evs))"
proof -
  let ?ps = "zip PRAYER_NAMES evs"
  have len: "length PRAYER_NAMES = length evs"
    using assms(1) by (simp add: PRAYER_NAMES_def)
  have 1: "distinct (map fst ?ps)"
    using len distinct_PRAYER_NAMES by simp
  have 2: "\<forall>x\<in>set ?ps. hour (snd x) < 24 \<and> minute (snd x) < 60"
    using assms(2) by (auto dest: set_zip_rightD)
  have 3: "\<forall>p\<in>fst ` set ?ps. notification_id now p (chat_id u) \<notin> set (sent_notifications st)"
    using assms(5) by (auto dest: set_zip_leftD)
  have "zip PRAYER_NAMES (map strftime_hm evs) = map (\<lambda>(p, t). (p, strftime_hm t)) ?ps"
    by (simp add: zip_map2)
  then show ?thesis
    using notify_loop_valid_times [OF 1 2 assms(3,4) 3 assms(6)] by simp
qed

theorem due_events_exact_witness:
  "\<exists>st'. notify_loop (example_env one_subscriber 4 37) moscow_user (at_time 4 37)
            (zip PRAYER_NAMES (map strftime_hm example_times)) init_state = (st', None)
         \<and> outbox st' = [(42, PrayerMsg ''Fajr'' ''04:37'')]"
proof -
  have 1: "length example_times = 6"
    by (simp add: example_times_def)
  have 2: "\<forall>t\<in>set example_times. hour t < 24 \<and> minute t < 60"
    by (simp add: example_times_def at_time_def)
  have 3: "hour (at_time 4 37) < 24" "minute (at_time 4 37) < 60"
    by (simp_all add: at_time_def)
  have 4: "\<forall>p\<in>set PRAYER_NAMES. notification_id (at_time 4 37) p (chat_id moscow_user)
             \<notin> set (sent_notifications init_state)"
    by (simp add: init_state_def)
  have 5: "\<forall>p t. deliver (example_env one_subscriber 4 37) (chat_id moscow_user) (PrayerMsg p t)"
    by (simp add: example_env_def)
  from due_events_exact [OF 1 2 3 4 5]
  show ?thesis
    by (simp add: example_times_def at_time_def PRAYER_NAMES_def moscow_user_def init_state_def
        strftime_hm_def zpad_def str_nat.simps digit_char_numerals)
qed

section \<open>The cache in front of the providers\<close>

lemma cache_get_after_set:
  assumes "now' - now \<le> CACHE_TIMEOUT"
  shows "cache_get (cache_set c now k v) now' k = Some v"
proof -
  define others where "others = filter (\<lambda>en. ce_key en \<noteq> k) (filter (\<lambda>en. \<not> expired now en) c)"
  define room where "room = (if MAXSIZE \<le> length others
                  then drop (length others + 1 - MAXSIZE) others else others)"
  have "set room \<subseteq> set others"
    by (auto simp: room_def dest: in_set_dropD)
  then have "\<forall>en\<in>set room. ce_key en \<noteq> k"
    by (auto simp: others_def)
  then have "filter (\<lambda>en. ce_key en = k \<and> \<not> expired now' en) room = []"
    by (auto simp: filter_empty_conv)
  moreover have "cache_set c now k v = room @ [\<lparr>ce_key = k, ce_value = v, inserted_at = now\<rparr>]"
    by (simp add: cache_set_def room_def others_def Let_def)
  ultimately show ?thesis
    using assms by (simp add: cache_get_def expired_def)
qed

lemma cache_get_None_iff:
  "(cache_get c now k = None) = (\<forall>en\<in>set c. ce_key en = k \<longrightarrow> expired now en)"
proof -
  have "(cache_get c now k = None) = (filter (\<lambda>en. ce_key en = k \<and> \<not> expired now en) c = [])"
    by (simp add: cache_get_def split: list.splits)
  then show ?thesis
    by (simp add: filter_empty_conv)
qed

lemma cache_get_None_later:
  "cache_get c now k = None \<Longrightarrow> now \<le> now' \<Longrightarrow> cache_get c now' k = None"
  by (auto simp: cache_get_None_iff expired_def)

lemma find_row_nonempty: "find_row d rows = Some s \<Longrightarrow> s \<noteq> []"
  by (induction rows) (auto split: if_splits)

lemma parse_hit:
  "cache_get (cache st) (clock e) (cty @ ''_'' @ strftime_ymd date) = Some v
   \<Longrightarrow> parse_prayer_times e cty date st = (v, st)"
  by (simp add: parse_prayer_times_def)

lemma parse_miss:
  assumes "cache_get (cache st) (clock e) (cty @ ''_'' @ strftime_ymd date) = None"
    and "parse_prayer_times e cty date st = (r, st')"
  shows "fetches st' = fetches st @ [schedule_url cty]"
    and "r \<noteq> [] \<Longrightarrow> cache st' = cache_set (cache st) (clock e) (cty @ ''_'' @ strftime_ymd date) r"
    and "r = [] \<Longrightarrow> cache st' = cache st"
  using assms
  by (auto simp: parse_prayer_times_def logmsg_def Let_def dest: find_row_nonempty
      split: page.splits option.splits)

lemma quote_hit:
  "cache_get (cache st) (clock e) (qt @ ''_'' @ strftime_ymd (sys_today e)) = Some v
   \<Longrightarrow> get_daily_quote e qt st = (v, st)"
  by (simp add: get_daily_quote_def)

lemma quote_miss:
  assumes "cache_get (cache st) (clock e) (qt @ ''_'' @ strftime_ymd (sys_today e)) = None"
    and "map_of quote_urls qt = Some url"
    and "get_daily_quote e qt st = (r, st')"
  shows "fetches st' = fetches st @ [url]"
    and "r \<noteq> [] \<Longrightarrow> cache st' = cache_set (cache st) (clock e) (qt @ ''_'' @ strftime_ymd (sys_today e)) r"
    and "r = [] \<Longrightarrow> cache st' = cache st"
  using assms
  by (auto simp: get_daily_quote_def logmsg_def Let_def split: quote_page.splits)

text \<open>
  C7. Schedules and quotes through the cache. A live entry is returned and the state,
  with its list of requested URLs, stays as it was; a non-empty result obtained on a
  miss is served from the cache at every instant less than \<open>CACHE_TIMEOUT\<close> after it
  was stored, without a request; an empty result leaves the cache as it was, and the
  next call requests the page again.
\<close>

theorem cache_hit_no_fetch_failure_refetched:
  "(cache_get (cache st) (clock e) (cty @ ''_'' @ strftime_ymd date) = Some v
      \<longrightarrow> parse_prayer_times e cty date st = (v, st))
   \<and> (cache_get (cache st) (clock e) (cty @ ''_'' @ strftime_ymd date) = None
        \<and> parse_prayer_times e cty date st = (r, st') \<and> r \<noteq> []
        \<and> clock e' < clock e + CACHE_TIMEOUT
      \<longrightarrow> parse_prayer_times e' cty date st' = (r, st'))
   \<and> (cache_get (cache st) (clock e) (cty @ ''_'' @ strftime_ymd date) = None
        \<and> parse_prayer_times e cty date st = ([], st'') \<and> clock e \<le> clock e'
      \<longrightarrow> cache st'' = cache st
          \<and> fetches (snd (parse_prayer_times e' cty date st''))
              = fetches st'' @ [schedule_url cty])
   \<and> (cache_get (cache st) (clock e) (qt @ ''_'' @ strftime_ymd (sys_today e)) = Some v
      \<longrightarrow> get_daily_quote e qt st = (v, st))
   \<and> (cache_get (cache st) (clock e) (qt @ ''_'' @ strftime_ymd (sys_today e)) = None
        \<and> map_of quote_urls qt = Some url
        \<and> get_daily_quote e qt st = (q, qst) \<and> q \<noteq> []
        \<and> clock e' < clock e + CACHE_TIMEOUT \<and> sys_today e' = sys_today e
      \<longrightarrow> get_daily_quote e' qt qst = (q, qst))
   \<and> (cache_get (cache st) (clock e) (qt @ ''_'' @ strftime_ymd (sys_today e)) = None
        \<and> map_of quote_urls qt = Some url
        \<and> get_daily_quote e qt st = ([], qst') \<and> clock e \<le> clock e' \<and> sys_today e' = sys_today e
      \<longrightarrow> cache qst' = cache st
          \<and> fetches (snd (get_daily_quote e' qt qst')) = fetches qst' @ [url])"
proof (intro conjI impI)
  assume "cache_get (cache st) (clock e) (cty @ ''_'' @ strftime_ymd date) = Some v"
  then show "parse_prayer_times e cty date st = (v, st)" by (rule parse_hit)
next
  assume a: "cache_get (cache st) (clock e) (cty @ ''_'' @ strftime_ymd date) = None
    \<and> parse_prayer_times e cty date st = (r, st') \<and> r \<noteq> [] \<and> clock e' < clock e + CACHE_TIMEOUT"
  then have "cache st' = cache_set (cache st) (clock e) (cty @ ''_'' @ strftime_ymd date) r"
    using parse_miss(2) by blast
  moreover have "clock e' - clock e \<le> CACHE_TIMEOUT" using a by simp
  ultimately have "cache_get (cache st') (clock e') (cty @ ''_'' @ strftime_ymd date) = Some r"
    by (simp add: cache_get_after_set)
  then show "parse_prayer_times e' cty date st' = (r, st')" by (rule parse_hit)
next
  assume a: "cache_get (cache st) (clock e) (cty @ ''_'' @ strftime_ymd date) = None
    \<and> parse_prayer_times e cty date st = ([], st'') \<and> clock e \<le> clock e'"
  then show c: "cache st'' = cache st" using parse_miss(3) by blast
  from a have "cache_get (cache st'') (clock e') (cty @ ''_'' @ strftime_ymd date) = None"
    using c cache_get_None_later [of "cache st" "clock e" _ "clock e'"] by simp
  then show "fetches (snd (parse_prayer_times e' cty date st'')) = fetches st'' @ [schedule_url cty]"
    using parse_miss(1) [of st'' e' cty date] by (cases "parse_prayer_times e' cty date st''") simp
next
  assume "cache_get (cache st) (clock e) (qt @ ''_'' @ strftime_ymd (sys_today e)) = Some v"
  then show "get_daily_quote e qt st = (v, st)" by (rule quote_hit)
next
  assume a: "cache_get (cache st) (clock e) (qt @ ''_'' @ strftime_ymd (sys_today e)) = None
        \<and> map_of quote_urls qt = Some url
        \<and> get_daily_quote e qt st = (q, qst) \<and> q \<noteq> []
        \<and> clock e' < clock e + CACHE_TIMEOUT \<and> sys_today e' = sys_today e"
  then have "cache qst = cache_set (cache st) (clock e) (qt @ ''_'' @ strftime_ymd (sys_today e)) q"
    using quote_miss(2) by blast
  moreover have "clock e' - clock e \<le> CACHE_TIMEOUT" using a by simp
  ultimately have "cache_get (cache qst) (clock e') (qt @ ''_'' @ strftime_ymd (sys_today e')) = Some q"
    using a by (simp add: cache_get_after_set)
  then show "get_daily_quote e' qt qst = (q, qst)" by (rule quote_hit)
next
  assume a: "cache_get (cache st) (clock e) (qt @ ''_'' @ strftime_ymd (sys_today e)) = None
        \<and> map_of quote_urls qt = Some url
        \<and> get_daily_quote e qt st = ([], qst') \<and> clock e \<le> clock e' \<and> sys_today e' = sys_today e"
  then show c: "cache qst' = cache st" using quote_miss(3) by blast
  from a have "cache_get (cache qst') (clock e') (qt @ ''_'' @ strftime_ymd (sys_today e')) = None"
    using c cache_get_None_later [of "cache st" "clock e" _ "clock e'"] by simp
  then show "fetches (snd (get_daily_quote e' qt qst')) = fetches qst' @ [url]"
    using quote_miss(1) [of qst' e' qt url] a by (cases "get_daily_quote e' qt qst'") simp
qed

theorem cache_hit_no_fetch_failure_refetched_witness:
  "parse_prayer_times (example_env one_subscriber 4 37) ''moscow'' (at_time 4 37) init_state
     = (example_schedule, warm_state)
   \<and> clock later_env < clock (example_env one_subscriber 4 37) + CACHE_TIMEOUT
   \<and> parse_prayer_times later_env ''moscow'' (at_time 4 37) warm_state
       = (example_schedule, warm_state)
   \<and> fst (parse_prayer_times offline_env ''moscow'' (at_time 4 37) init_state) = []
   \<and> fetches (snd (parse_prayer_times offline_env ''moscow'' (at_time 4 37)
        (snd (parse_prayer_times offline_env ''moscow'' (at_time 4 37) init_state))))
       = [''https://umma.ru/raspisanie-namaza/moscow'', ''https://umma.ru/raspisanie-namaza/moscow'']
   \<and> fst (get_daily_quote (example_env one_subscriber 4 37) ''ayat'' init_state)
       = [(''text'', ''quote of the day'')]
   \<and> get_daily_quote later_env ''ayat''
        (snd (get_daily_quote (example_env one_subscriber 4 37) ''ayat'' init_state))
       = get_daily_quote (example_env one_subscriber 4 37) ''ayat'' init_state
   \<and> fst (get_daily_quote offline_env ''ayat'' init_state) = []
   \<and> fetches (snd (get_daily_quote offline_env ''ayat''
        (snd (get_daily_quote offline_env ''ayat'' init_state))))
       = [''https://umma.ru/ayat-dnya'', ''https://umma.ru/ayat-dnya'']"
proof -
  let ?e = "example_env one_subscriber 4 37"
  have miss: "cache_get (cache init_state) (clock ?e) (''moscow'' @ ''_'' @ strftime_ymd (at_time 4 37)) = None"
    "cache_get (cache init_state) (clock offline_env) (''moscow'' @ ''_'' @ strftime_ymd (at_time 4 37)) = None"
    "cache_get (cache init_state) (clock ?e) (''ayat'' @ ''_'' @ strftime_ymd (sys_today ?e)) = None"
    "cache_get (cache init_state) (clock offline_env) (''ayat'' @ ''_'' @ strftime_ymd (sys_today offline_env)) = None"
    by (simp_all add: cache_get_def init_state_def)
  have p1: "parse_prayer_times ?e ''moscow'' (at_time 4 37) init_state = (example_schedule, warm_state)"
    by (simp add: example_env_def example_page_def at_time_def example_schedule_def
        warm_state_def eval_simps)
  have t: "clock later_env < clock ?e + CACHE_TIMEOUT" "clock offline_env \<le> clock offline_env"
    "sys_today later_env = sys_today ?e"
    by (simp_all add: later_env_def example_env_def CACHE_TIMEOUT_def)
  have p2: "fst (parse_prayer_times offline_env ''moscow'' (at_time 4 37) init_state) = []"
    by (simp add: offline_env_def example_env_def parse_prayer_times_def cache_get_def
        init_state_def Let_def)
  then have p2': "parse_prayer_times offline_env ''moscow'' (at_time 4 37) init_state
      = ([], snd (parse_prayer_times offline_env ''moscow'' (at_time 4 37) init_state))"
    by (metis prod.collapse)
  have u: "map_of quote_urls ''ayat'' = Some ''https://umma.ru/ayat-dnya''"
    by (simp add: quote_urls_def)
  have q1: "fst (get_daily_quote ?e ''ayat'' init_state) = [(''text'', ''quote of the day'')]"
    by (simp add: example_env_def get_daily_quote_def cache_get_def init_state_def quote_urls_def
        Let_def)
  then have q1': "get_daily_quote ?e ''ayat'' init_state
      = ([(''text'', ''quote of the day'')], snd (get_daily_quote ?e ''ayat'' init_state))"
    by (metis prod.collapse)
  have q2: "fst (get_daily_quote offline_env ''ayat'' init_state) = []"
    by (simp add: offline_env_def example_env_def get_daily_quote_def cache_get_def
        init_state_def quote_urls_def Let_def)
  then have q2': "get_daily_quote offline_env ''ayat'' init_state
      = ([], snd (get_daily_quote offline_env ''ayat'' init_state))"
    by (metis prod.collapse)
  have f: "fetches (snd (parse_prayer_times offline_env ''moscow'' (at_time 4 37) init_state))
      = [''https://umma.ru/raspisanie-namaza/moscow'']"
    "fetches (snd (get_daily_quote offline_env ''ayat'' init_state)) = [''https://umma.ru/ayat-dnya'']"
    by (simp_all add: offline_env_def example_env_def parse_prayer_times_def get_daily_quote_def
        cache_get_def init_state_def quote_urls_def schedule_url_def logmsg_def Let_def)
  have ne: "example_schedule \<noteq> []" "[(''text'', ''quote of the day'')] \<noteq> ([] :: pydict)"
    by (simp_all add: example_schedule_def)
  note a = cache_hit_no_fetch_failure_refetched
    [where st = init_state and e = ?e and e' = later_env and cty = "''moscow''"
       and date = "at_time 4 37" and r = example_schedule and st' = warm_state
       and qt = "''ayat''" and url = "''https://umma.ru/ayat-dnya''"
       and q = "[(''text'', ''quote of the day'')]"
       and qst = "snd (get_daily_quote ?e ''ayat'' init_state)"]
  note b = cache_hit_no_fetch_failure_refetched
    [where st = init_state and e = offline_env and e' = offline_env and cty = "''moscow''"
       and date = "at_time 4 37"
       and st'' = "snd (parse_prayer_times offline_env ''moscow'' (at_time 4 37) init_state)"
       and qt = "''ayat''" and url = "''https://umma.ru/ayat-dnya''"
       and qst' = "snd (get_daily_quote offline_env ''ayat'' init_state)"]
  have w2: "parse_prayer_times later_env ''moscow'' (at_time 4 37) warm_state
       = (example_schedule, warm_state)"
    using a miss(1) p1 t(1) ne(1) by blast
  have "fetches (snd (parse_prayer_times offline_env ''moscow'' (at_time 4 37)
        (snd (parse_prayer_times offline_env ''moscow'' (at_time 4 37) init_state))))
       = fetches (snd (parse_prayer_times offline_env ''moscow'' (at_time 4 37) init_state))
         @ [schedule_url ''moscow'']"
    using b miss(2) p2' t(2) by blast
  then have w4: "fetches (snd (parse_prayer_times offline_env ''moscow'' (at_time 4 37)
        (snd (parse_prayer_times offline_env ''moscow'' (at_time 4 37) init_state))))
       = [''https://umma.ru/raspisanie-namaza/moscow'', ''https://umma.ru/raspisanie-namaza/moscow'']"
    by (simp only: f(1) schedule_url_def append.simps)
  have "get_daily_quote later_env ''ayat'' (snd (get_daily_quote ?e ''ayat'' init_state))
       = ([(''text'', ''quote of the day'')], snd (get_daily_quote ?e ''ayat'' init_state))"
    using a miss(3) u q1' t(1,3) ne(2) by blast
  then have w6: "get_daily_quote later_env ''ayat'' (snd (get_daily_quote ?e ''ayat'' init_state))
       = get_daily_quote ?e ''ayat'' init_state"
    using q1' by (rule trans [OF _ sym])
  have "fetches (snd (get_daily_quote offline_env ''ayat''
        (snd (get_daily_quote offline_env ''ayat'' init_state))))
       = fetches (snd (get_daily_quote offline_env ''ayat'' init_state)) @ [''https://umma.ru/ayat-dnya'']"
    using b miss(4) u q2' t(2) by blast
  then have w8: "fetches (snd (get_daily_quote offline_env ''ayat''
        (snd (get_daily_quote offline_env ''ayat'' init_state))))
       = [''https://umma.ru/ayat-dnya'', ''https://umma.ru/ayat-dnya'']"
    by (simp only: f(2) append.simps)
  from p1 t(1) w2 p2 w4 q1 w6 q2 w8 show ?thesis
    by (intro conjI)
qed

section \<open>The shape of a parsed schedule\<close>

lemma parse_frame:
  assumes "parse_prayer_times e cty date st = (r, st')"
  shows "outbox st' = outbox st" and "sent_notifications st' = sent_notifications st"
    and "sent_daily_schedules st' = sent_daily_schedules st"
  using assms
  by (auto simp: parse_prayer_times_def logmsg_def Let_def split: option.splits page.splits)

lemma quote_frame:
  assumes "get_daily_quote e qt st = (r, st')"
  shows "outbox st' = outbox st" and "sent_notifications st' = sent_notifications st"
    and "sent_daily_schedules st' = sent_daily_schedules st"
  using assms
  by (auto simp: get_daily_quote_def logmsg_def Let_def split: option.splits quote_page.splits)

lemma find_row_shape:
  "find_row d rows = Some r \<Longrightarrow>
     \<exists>cols\<in>set rows. 8 \<le> length cols \<and> cols ! 0 = d \<and> map fst r = PRAYER_NAMES
        \<and> map snd r = [cols ! 2, cols ! 3, cols ! 4, cols ! 5, cols ! 6, cols ! 7]"
  by (induction rows) (auto simp: PRAYER_NAMES_def split: if_splits)

lemma check_user_empty_schedule:
  assumes "local_now e (tz u) = Some now" and "parse_prayer_times e (city u) now st = ([], st1)"
  shows "outbox (check_user e u st) = outbox st"
    and "sent_notifications (check_user e u st) = sent_notifications st"
  using assms parse_frame [OF assms(2)] by (simp_all add: check_user_def logmsg_def)

text \<open>
  C9, as the specification has it, fails: a row whose cells are not clock times gives a
  non-empty schedule in which an event is mapped to \<open>--\<close>.
\<close>

theorem parsed_schedule_invalid_time:
  "fst (parse_prayer_times dashes_env ''moscow'' (at_time 4 37) init_state)
     = [(''Fajr'', ''--''), (''Shuruk'', ''06:10''), (''Zuhr'', ''soon''), (''Asr'', ''25:00''),
        (''Maghrib'', ''16:30''), (''Isha'', ''18:20'')]
   \<and> \<not> valid_24h_time ''--'' \<and> \<not> valid_24h_time ''soon'' \<and> \<not> valid_24h_time ''25:00''
   \<and> valid_24h_time ''06:10''"
  by (simp add: dashes_env_def example_env_def at_time_def valid_24h_time_def field_ok_def
      field_val_def eval_simps)

section \<open>The quote of the day\<close>

lemma quote_user_outbox:
  "outbox (quote_user e q u st) = outbox st
   \<or> (\<exists>text now. outbox (quote_user e q u st) = outbox st @ [(chat_id u, QuoteMsg text)]
         \<and> local_now e (tz u) = Some now \<and> strftime_hm now = ''08:00'')"
  by (auto simp: quote_user_def logmsg_def split: option.splits)

lemma quote_users_outbox:
  assumes "distinct (map chat_id us)"
  shows "\<exists>new. outbox (quote_users e q us st) = outbox st @ new
           \<and> distinct (map fst new)
           \<and> (\<forall>x\<in>set new. \<exists>u\<in>set us. chat_id u = fst x
                  \<and> (\<exists>now. local_now e (tz u) = Some now \<and> strftime_hm now = ''08:00''))"
  using assms
proof (induction us arbitrary: st)
  case Nil
  then show ?case by simp
next
  case (Cons u us)
  from Cons.prems have d: "distinct (map chat_id us)" and n: "chat_id u \<notin> chat_id ` set us"
    by simp_all
  from Cons.IH [OF d, of "quote_user e q u st"] obtain new
    where new: "outbox (quote_users e q us (quote_user e q u st)) = outbox (quote_user e q u st) @ new"
      "distinct (map fst new)"
      "\<forall>x\<in>set new. \<exists>u\<in>set us. chat_id u = fst x
          \<and> (\<exists>now. local_now e (tz u) = Some now \<and> strftime_hm now = ''08:00'')"
    by blast
  have "fst x \<in> chat_id ` set us" if "x \<in> set new" for x
    using new(3) that by (metis imageI)
  with n have fresh: "chat_id u \<notin> fst ` set new"
    by auto
  from quote_user_outbox [of e q u st] show ?case
  proof
    assume "outbox (quote_user e q u st) = outbox st"
    with new show ?thesis
      by (intro exI [of _ new]) auto
  next
    assume "\<exists>text now. outbox (quote_user e q u st) = outbox st @ [(chat_id u, QuoteMsg text)]
         \<and> local_now e (tz u) = Some now \<and> strftime_hm now = ''08:00''"
    then obtain body now
      where "outbox (quote_user e q u st) = outbox st @ [(chat_id u, QuoteMsg body)]"
        "local_now e (tz u) = Some now" "strftime_hm now = ''08:00''"
      by blast
    with new fresh show ?thesis
      by (intro exI [of _ "(chat_id u, QuoteMsg body) # new"]) auto
  qed
qed

lemma distinct_subscribed_users:
  "distinct (map fst t) \<Longrightarrow> distinct (map chat_id (get_subscribed_users ok t))"
proof -
  assume d: "distinct (map fst t)"
  have "map chat_id (get_subscribed_users True t) = map fst (filter (\<lambda>(c, r). subscribed r = 1) t)"
    by (induction t) (auto simp: get_subscribed_users_def)
  with d have "distinct (map chat_id (get_subscribed_users True t))"
    by (simp add: distinct_map_filter)
  then show ?thesis
    by (cases ok) (simp_all add: get_subscribed_users_def)
qed

text \<open>
  Within one run, \<open>send_daily_quote\<close> sends at most one quote to each subscriber, and
  only to subscribers whose local time reads 08:00.
\<close>

lemma quote_once_per_run:
  assumes "distinct (map fst (db e))"
  shows "\<exists>new. outbox (send_daily_quote e st) = outbox st @ new
           \<and> distinct (map fst new)
           \<and> (\<forall>x\<in>set new. \<exists>u\<in>set (get_subscribed_users (db_ok e) (db e)). chat_id u = fst x
                  \<and> (\<exists>now. local_now e (tz u) = Some now \<and> strftime_hm now = ''08:00''))"
proof (cases "get_subscribed_users (db_ok e) (db e) = []")
  case True
  then show ?thesis
    by (simp add: send_daily_quote_def logmsg_def)
next
  case False
  obtain q st1 where g: "get_daily_quote e ''ayat'' st = (q, st1)"
    by (cases "get_daily_quote e ''ayat'' st")
  then have o: "outbox st1 = outbox st"
    by (rule quote_frame)
  show ?thesis
  proof (cases "q = []")
    case True
    with False g o show ?thesis
      by (simp add: send_daily_quote_def logmsg_def)
  next
    case q: False
    from quote_users_outbox [OF distinct_subscribed_users [OF assms], where e = e and q = q and st = st1]
    show ?thesis
      using False g o q by (simp add: send_daily_quote_def)
  qed
qed

text \<open>
  C3. Two runs of \<open>send_daily_quote\<close> inside the same minute 08:00 of one day: the
  job keeps no key of what it sent, and the subscriber receives the quote of the day
  twice.
\<close>

theorem quote_sent_twice_same_minute:
  "outbox (run_jobs [(DailyQuote, example_env one_subscriber 8 0),
                     (DailyQuote, example_env one_subscriber 8 0)] init_state)
     = [(42, QuoteMsg ''quote of the day''), (42, QuoteMsg ''quote of the day'')]"
  by (simp add: send_daily_quote_def get_daily_quote_def quote_user_def quote_urls_def
      example_env_def one_subscriber_def eval_simps)

section \<open>Failed deliveries\<close>

lemma notify_loop_trace:
  "notify_loop e u now sched st = (st', r) \<Longrightarrow>
     \<exists>ps. set ps \<subseteq> set sched
       \<and> outbox st' = outbox st @ map (\<lambda>(p, t). (chat_id u, PrayerMsg p t)) ps
       \<and> sent_notifications st'
           = sent_notifications st @ map (\<lambda>(p, t). notification_id now p (chat_id u)) ps
       \<and> (\<forall>x\<in>set ps. deliver e (chat_id u) (PrayerMsg (fst x) (snd x))
              \<and> notification_id now (fst x) (chat_id u) \<notin> set (sent_notifications st))
       \<and> sent_daily_schedules st' = sent_daily_schedules st"
proof (induction sched arbitrary: st)
  case Nil
  then show ?case by (intro exI [of _ "[]"]) simp
next
  case (Cons x sched)
  obtain p t where x: "x = (p, t)" by (cases x)
  let ?nid = "notification_id now p (chat_id u)"
  let ?st1 = "st\<lparr>outbox := outbox st @ [(chat_id u, PrayerMsg p t)],
                  sent_notifications := sent_notifications st @ [?nid]\<rparr>"
  consider (stop) "st' = st"
    | (send) "to_minutes t = to_minutes (strftime_hm now)" "?nid \<notin> set (sent_notifications st)"
        "deliver e (chat_id u) (PrayerMsg p t)" "notify_loop e u now sched ?st1 = (st', r)"
    | (skip) "notify_loop e u now sched st = (st', r)"
  proof (cases "to_minutes t")
    case (Inl err)
    with Cons.prems x have "st' = st" by simp
    then show ?thesis by (rule that(1))
  next
    case pm: (Inr prayer_minutes)
    show ?thesis
    proof (cases "to_minutes (strftime_hm now)")
      case (Inl err)
      with Cons.prems x pm have "st' = st" by simp
      then show ?thesis by (rule that(1))
    next
      case cm: (Inr current_minutes)
      define due where "due = (prayer_minutes - current_minutes = 0
                               \<and> ?nid \<notin> set (sent_notifications st))"
      have eq: "notify_loop e u now (x # sched) st
          = (if due then (if deliver e (chat_id u) (PrayerMsg p t)
                          then notify_loop e u now sched ?st1
                          else (st, Some TelegramError))
             else notify_loop e u now sched st)"
        by (simp add: x pm cm Let_def due_def)
      show ?thesis
      proof (cases due)
        case False
        with Cons.prems eq have "notify_loop e u now sched st = (st', r)"
          by simp
        then show ?thesis by (rule that(3))
      next
        case True
        show ?thesis
        proof (cases "deliver e (chat_id u) (PrayerMsg p t)")
          case False
          with Cons.prems eq True have "st' = st" by simp
          then show ?thesis by (rule that(1))
        next
          case d: True
          with Cons.prems eq True have "notify_loop e u now sched ?st1 = (st', r)"
            by simp
          moreover have "to_minutes t = to_minutes (strftime_hm now)"
            "?nid \<notin> set (sent_notifications st)"
            using pm cm True by (simp_all add: due_def)
          ultimately show ?thesis
            using d that(2) by blast
        qed
      qed
    qed
  qed
  then show ?case
  proof cases
    case stop
    then show ?thesis by (intro exI [of _ "[]"]) simp
  next
    case send
    from Cons.IH [OF send(4)] obtain ps
      where ps: "set ps \<subseteq> set sched"
        "outbox st' = outbox ?st1 @ map (\<lambda>(p, t). (chat_id u, PrayerMsg p t)) ps"
        "sent_notifications st'
           = sent_notifications ?st1 @ map (\<lambda>(p, t). notification_id now p (chat_id u)) ps"
        "\<forall>x\<in>set ps. deliver e (chat_id u) (PrayerMsg (fst x) (snd x))
              \<and> notification_id now (fst x) (chat_id u) \<notin> set (sent_notifications ?st1)"
        "sent_daily_schedules st' = sent_daily_schedules ?st1"
      by blast
    with send x show ?thesis
      by (intro exI [of _ "(p, t) # ps"]) auto
  next
    case skip
    from Cons.IH [OF skip] obtain ps
      where "set ps \<subseteq> set sched"
        "outbox st' = outbox st @ map (\<lambda>(p, t). (chat_id u, PrayerMsg p t)) ps"
        "sent_notifications st'
           = sent_notifications st @ map (\<lambda>(p, t). notification_id now p (chat_id u)) ps"
        "\<forall>x\<in>set ps. deliver e (chat_id u) (PrayerMsg (fst x) (snd x))
              \<and> notification_id now (fst x) (chat_id u) \<notin> set (sent_notifications st)"
        "sent_daily_schedules st' = sent_daily_schedules st"
      by blast
    then show ?thesis
      by (intro exI [of _ ps]) auto
  qed
qed

lemma check_user_failed_delivery:
  assumes "\<forall>m. \<not> deliver e (chat_id u) m"
  shows "sent_notifications (check_user e u st) = sent_notifications st"
    and "outbox (check_user e u st) = outbox st"
proof -
  have "sent_notifications (check_user e u st) = sent_notifications st
      \<and> outbox (check_user e u st) = outbox st"
  proof (cases "local_now e (tz u)")
    case None
    then show ?thesis by (simp add: check_user_def logmsg_def)
  next
    case (Some now)
    obtain sched st1 where p: "parse_prayer_times e (city u) now st = (sched, st1)"
      by (cases "parse_prayer_times e (city u) now st")
    note f = parse_frame [OF p]
    obtain st2 r where n: "notify_loop e u now sched st1 = (st2, r)"
      by (cases "notify_loop e u now sched st1")
    from notify_loop_trace [OF n] obtain ps
      where ps: "outbox st2 = outbox st1 @ map (\<lambda>(p, t). (chat_id u, PrayerMsg p t)) ps"
        "sent_notifications st2
           = sent_notifications st1 @ map (\<lambda>(p, t). notification_id now p (chat_id u)) ps"
        "\<forall>x\<in>set ps. deliver e (chat_id u) (PrayerMsg (fst x) (snd x))"
      by blast
    have "ps = []"
    proof (cases ps)
      case (Cons x xs)
      with ps(3) have "deliver e (chat_id u) (PrayerMsg (fst x) (snd x))"
        by simp
      with assms show ?thesis by blast
    qed simp
    with ps have "outbox st2 = outbox st1" "sent_notifications st2 = sent_notifications st1"
      by simp_all
    with Some p n f show ?thesis
      by (cases r) (simp_all add: check_user_def logmsg_def)
  qed
  then show "sent_notifications (check_user e u st) = sent_notifications st"
    and "outbox (check_user e u st) = outbox st"
    by simp_all
qed

text \<open>
  C8. In the loop over a subscriber's schedule, every key added to
  \<open>sent_notifications\<close> belongs to a message that was delivered, and was not in the
  ledger when the loop began. A due, unmarked item whose send raises stops the loop with
  the state as it was before the item: the key is not marked. When every send to a
  subscriber raises, \<open>check_user\<close> leaves ledger and outbox as they were, and the user
  loop goes on with the remaining subscribers.
\<close>

theorem failed_send_not_marked_others_processed:
  "(notify_loop e u now sched st = (st', r)
      \<longrightarrow> (\<exists>ps. set ps \<subseteq> set sched
             \<and> outbox st' = outbox st @ map (\<lambda>(p, t). (chat_id u, PrayerMsg p t)) ps
             \<and> sent_notifications st'
                 = sent_notifications st @ map (\<lambda>(p, t). notification_id now p (chat_id u)) ps
             \<and> (\<forall>x\<in>set ps. deliver e (chat_id u) (PrayerMsg (fst x) (snd x))
                    \<and> notification_id now (fst x) (chat_id u) \<notin> set (sent_notifications st))))
   \<and> (to_minutes time = Inr m \<and> to_minutes (strftime_hm now) = Inr m
        \<and> notification_id now prayer (chat_id u) \<notin> set (sent_notifications st)
        \<and> \<not> deliver e (chat_id u) (PrayerMsg prayer time)
      \<longrightarrow> notify_loop e u now ((prayer, time) # rest) st = (st, Some TelegramError))
   \<and> ((\<forall>msg. \<not> deliver e (chat_id u) msg)
      \<longrightarrow> sent_notifications (check_user e u st) = sent_notifications st
          \<and> outbox (check_user e u st) = outbox st
          \<and> check_users e (u # us) st = check_users e us (check_user e u st))"
proof (intro conjI impI)
  assume "notify_loop e u now sched st = (st', r)"
  from notify_loop_trace [OF this]
  show "\<exists>ps. set ps \<subseteq> set sched
             \<and> outbox st' = outbox st @ map (\<lambda>(p, t). (chat_id u, PrayerMsg p t)) ps
             \<and> sent_notifications st'
                 = sent_notifications st @ map (\<lambda>(p, t). notification_id now p (chat_id u)) ps
             \<and> (\<forall>x\<in>set ps. deliver e (chat_id u) (PrayerMsg (fst x) (snd x))
                    \<and> notification_id now (fst x) (chat_id u) \<notin> set (sent_notifications st))"
    by blast
next
  assume "to_minutes time = Inr m \<and> to_minutes (strftime_hm now) = Inr m
        \<and> notification_id now prayer (chat_id u) \<notin> set (sent_notifications st)
        \<and> \<not> deliver e (chat_id u) (PrayerMsg prayer time)"
  then show "notify_loop e u now ((prayer, time) # rest) st = (st, Some TelegramError)"
    by simp
next
  assume a: "\<forall>msg. \<not> deliver e (chat_id u) msg"
  show "sent_notifications (check_user e u st) = sent_notifications st"
    using a by (rule check_user_failed_delivery)
  show "outbox (check_user e u st) = outbox st"
    using a by (rule check_user_failed_delivery)
  show "check_users e (u # us) st = check_users e us (check_user e u st)"
    by simp
qed

theorem failed_send_not_marked_others_processed_witness:
  "sent_notifications (check_user flaky_env moscow_user init_state) = []
   \<and> outbox (check_user flaky_env moscow_user init_state) = []
   \<and> notify_loop flaky_env moscow_user (at_time 4 37) example_schedule init_state
       = (init_state, Some TelegramError)
   \<and> get_subscribed_users True two_subscribers = [moscow_user, kazan_user]
   \<and> outbox (check_users flaky_env [moscow_user, kazan_user] init_state)
       = [(43, PrayerMsg ''Fajr'' ''04:37'')]
   \<and> sent_notifications (check_users flaky_env [moscow_user, kazan_user] init_state)
       = [''2024-01-15-Fajr-43'']"
proof -
  have f: "\<forall>msg. \<not> deliver flaky_env (chat_id moscow_user) msg"
    by (simp add: flaky_env_def moscow_user_def)
  note a = failed_send_not_marked_others_processed
    [where e = flaky_env and u = moscow_user and st = init_state and us = "[kazan_user]"]
  from a f have 1: "sent_notifications (check_user flaky_env moscow_user init_state)
      = sent_notifications init_state"
    and 2: "outbox (check_user flaky_env moscow_user init_state) = outbox init_state"
    by blast+
  have 3: "get_subscribed_users True two_subscribers = [moscow_user, kazan_user]"
    by (simp add: get_subscribed_users_def two_subscribers_def moscow_user_def kazan_user_def)
  have 4: "outbox (check_users flaky_env [moscow_user, kazan_user] init_state)
       = [(43, PrayerMsg ''Fajr'' ''04:37'')]"
    and 5: "sent_notifications (check_users flaky_env [moscow_user, kazan_user] init_state)
       = [''2024-01-15-Fajr-43'']"
    by (simp_all add: flaky_env_def example_env_def example_page_def moscow_user_def
        kazan_user_def eval_simps)
  have t: "to_minutes ''04:37'' = Inr 277" "to_minutes (strftime_hm (at_time 4 37)) = Inr 277"
    by (simp_all add: at_time_def eval_simps)
  have k: "notification_id (at_time 4 37) ''Fajr'' (chat_id moscow_user)
      \<notin> set (sent_notifications init_state)"
    by (simp add: init_state_def)
  have g: "\<not> deliver flaky_env (chat_id moscow_user) (PrayerMsg ''Fajr'' ''04:37'')"
    using f by blast
  note b = failed_send_not_marked_others_processed
    [where e = flaky_env and u = moscow_user and st = init_state and now = "at_time 4 37"
       and time = "''04:37''" and m = 277 and prayer = "''Fajr''"
       and rest = "tl example_schedule"]
  from b t k g have "notify_loop flaky_env moscow_user (at_time 4 37)
      ((''Fajr'', ''04:37'') # tl example_schedule) init_state = (init_state, Some TelegramError)"
    by blast
  then have 6: "notify_loop flaky_env moscow_user (at_time 4 37) example_schedule init_state
       = (init_state, Some TelegramError)"
    by (simp add: example_schedule_def)
  have 7: "sent_notifications init_state = []" "outbox init_state = []"
    by (simp_all add: init_state_def)
  from 1 2 3 4 5 6 7 show ?thesis
    by (simp only: simp_thms)
qed

section \<open>The daily digest\<close>

lemma logmsg_digest_frame:
  "sent_daily_schedules (logmsg l st) = sent_daily_schedules st"
  "digests (logmsg l st) = digests st"
  by (simp_all add: logmsg_def digests_def)

lemma digest_user_cases:
  "(outbox (digest_user e today u st) = outbox st
      \<and> sent_daily_schedules (digest_user e today u st) = sent_daily_schedules st)
   \<or> (\<exists>sched. outbox (digest_user e today u st) = outbox st @ [(chat_id u, ScheduleMsg sched)]
         \<and> sent_daily_schedules (digest_user e today u st)
             = sent_daily_schedules st @ [schedule_id today (chat_id u)]
         \<and> schedule_id today (chat_id u) \<notin> set (sent_daily_schedules st))"
proof (cases "local_now e (tz u)")
  case None
  then show ?thesis by (simp add: digest_user_def logmsg_def)
next
  case (Some now)
  obtain sched st1 where p: "parse_prayer_times e (city u) today st = (sched, st1)"
    by (cases "parse_prayer_times e (city u) today st")
  note f = parse_frame [OF p]
  show ?thesis
    using Some p f
    by (auto simp: digest_user_def logmsg_def Let_def split: option.splits sum.splits)
qed

lemma digest_users_outbox:
  assumes "distinct (map chat_id us)"
  shows "\<exists>new. outbox (digest_users e today us st) = outbox st @ new
           \<and> (\<forall>x\<in>set new. is_schedule_msg (snd x))
           \<and> distinct (map fst new)
           \<and> fst ` set new \<subseteq> chat_id ` set us
           \<and> (new = [] \<or> sent_daily_schedules (digest_users e today us st) \<noteq> [])
           \<and> (sent_daily_schedules st = [] \<or> sent_daily_schedules (digest_users e today us st) \<noteq> [])"
  using assms
proof (induction us arbitrary: st)
  case Nil
  then show ?case by simp
next
  case (Cons u us)
  let ?st1 = "digest_user e today u st"
  from Cons.prems have d: "distinct (map chat_id us)" and n: "chat_id u \<notin> chat_id ` set us"
    by simp_all
  from Cons.IH [OF d, of ?st1] obtain new
    where new: "outbox (digest_users e today us ?st1) = outbox ?st1 @ new"
      "\<forall>x\<in>set new. is_schedule_msg (snd x)"
      "distinct (map fst new)"
      "fst ` set new \<subseteq> chat_id ` set us"
      "new = [] \<or> sent_daily_schedules (digest_users e today us ?st1) \<noteq> []"
      "sent_daily_schedules ?st1 = [] \<or> sent_daily_schedules (digest_users e today us ?st1) \<noteq> []"
    by blast
  from new(4) n have fresh: "chat_id u \<notin> fst ` set new"
    by blast
  from digest_user_cases [of e today u st] show ?case
  proof
    assume "outbox ?st1 = outbox st \<and> sent_daily_schedules ?st1 = sent_daily_schedules st"
    with new show ?thesis
      by (intro exI [of _ new]) auto
  next
    assume "\<exists>sched. outbox ?st1 = outbox st @ [(chat_id u, ScheduleMsg sched)]
         \<and> sent_daily_schedules ?st1 = sent_daily_schedules st @ [schedule_id today (chat_id u)]
         \<and> schedule_id today (chat_id u) \<notin> set (sent_daily_schedules st)"
    then obtain sched
      where s: "outbox ?st1 = outbox st @ [(chat_id u, ScheduleMsg sched)]"
        "sent_daily_schedules ?st1 = sent_daily_schedules st @ [schedule_id today (chat_id u)]"
      by blast
    with new(6) have ne: "sent_daily_schedules (digest_users e today us ?st1) \<noteq> []"
      by simp
    from s new fresh ne show ?thesis
      by (intro exI [of _ "(chat_id u, ScheduleMsg sched) # new"]) auto
  qed
qed

lemma check_user_digest_frame:
  "sent_daily_schedules (check_user e u st) = sent_daily_schedules st
   \<and> digests (check_user e u st) = digests st"
proof (cases "local_now e (tz u)")
  case None
  then show ?thesis by (simp add: check_user_def logmsg_def digests_def)
next
  case (Some now)
  obtain sched st1 where p: "parse_prayer_times e (city u) now st = (sched, st1)"
    by (cases "parse_prayer_times e (city u) now st")
  note f = parse_frame [OF p]
  obtain st2 r where n: "notify_loop e u now sched st1 = (st2, r)"
    by (cases "notify_loop e u now sched st1")
  from notify_loop_trace [OF n] obtain ps
    where ps: "outbox st2 = outbox st1 @ map (\<lambda>(p, t). (chat_id u, PrayerMsg p t)) ps"
      "sent_daily_schedules st2 = sent_daily_schedules st1"
    by blast
  have "filter (\<lambda>x. is_schedule_msg (snd x)) (map (\<lambda>(p, t). (chat_id u, PrayerMsg p t)) ps) = []"
    by (induction ps) auto
  with ps f have "sent_daily_schedules st2 = sent_daily_schedules st" "digests st2 = digests st"
    by (simp_all add: digests_def)
  with Some p n f show ?thesis
    by (cases r) (simp_all add: check_user_def logmsg_def digests_def)
qed

lemma check_users_digest_frame:
  "sent_daily_schedules (check_users e us st) = sent_daily_schedules st
   \<and> digests (check_users e us st) = digests st"
  by (induction us arbitrary: st) (simp_all add: check_user_digest_frame)

lemma quote_user_digest_frame:
  "sent_daily_schedules (quote_user e q u st) = sent_daily_schedules st
   \<and> digests (quote_user e q u st) = digests st"
  by (simp add: quote_user_def logmsg_def digests_def split: option.splits)

lemma quote_users_digest_frame:
  "sent_daily_schedules (quote_users e q us st) = sent_daily_schedules st
   \<and> digests (quote_users e q us st) = digests st"
  by (induction us arbitrary: st) (simp_all add: quote_user_digest_frame)

lemma send_daily_quote_digest_frame:
  "sent_daily_schedules (send_daily_quote e st) = sent_daily_schedules st
   \<and> digests (send_daily_quote e st) = digests st"
proof -
  obtain q st1 where g: "get_daily_quote e ''ayat'' st = (q, st1)"
    by (cases "get_daily_quote e ''ayat'' st")
  note f = quote_frame [OF g]
  then have "sent_daily_schedules st1 = sent_daily_schedules st" "digests st1 = digests st"
    by (simp_all add: digests_def)
  with g show ?thesis
    by (simp add: send_daily_quote_def Let_def logmsg_digest_frame quote_users_digest_frame)
qed

lemma check_prayer_times_digest_frame:
  "sent_daily_schedules (run_job CheckPrayerTimes e st) = sent_daily_schedules st
   \<and> digests (run_job CheckPrayerTimes e st) = digests st"
proof -
  have "digests (st\<lparr>sent_notifications := ks, log := lg\<rparr>) = digests st" for ks lg
    by (simp add: digests_def)
  then show ?thesis
    by (simp add: run_job_def check_prayer_times_def clean_notifications_drops_all Let_def
        logmsg_digest_frame check_users_digest_frame)
qed

lemma daily_schedule_inv:
  assumes "distinct (map fst (db e))" and "digest_inv st"
  shows "digest_inv (run_job DailySchedule e st)"
proof (cases "get_subscribed_users (db_ok e) (db e) = []")
  case True
  with assms(2) show ?thesis
    by (simp add: run_job_def send_daily_prayer_schedule_def digest_inv_def logmsg_digest_frame)
next
  case users: False
  show ?thesis
  proof (cases "sent_daily_schedules st")
    case (Cons k ks)
    with users assms(2) show ?thesis
      by (simp add: run_job_def send_daily_prayer_schedule_def digest_inv_def
          logmsg_digest_frame clean_schedules_raises Let_def del: clean_schedules.simps)
  next
    case Nil
    let ?us = "get_subscribed_users (db_ok e) (db e)"
    let ?st0 = "st\<lparr>sent_daily_schedules := []\<rparr>"
    let ?st' = "digest_users e (utc_now e) ?us ?st0"
    have r: "run_job DailySchedule e st = ?st'"
      using users Nil by (simp add: run_job_def send_daily_prayer_schedule_def Let_def)
    from Nil assms(2) have none: "digests st = []"
      by (simp add: digest_inv_def)
    from digest_users_outbox [OF distinct_subscribed_users [OF assms(1)], of e "utc_now e" "db_ok e" ?st0]
    obtain new where new: "outbox ?st' = outbox ?st0 @ new"
      "\<forall>x\<in>set new. is_schedule_msg (snd x)" "distinct (map fst new)"
      "new = [] \<or> sent_daily_schedules ?st' \<noteq> []"
      by blast
    from new(2) have "filter (\<lambda>x. is_schedule_msg (snd x)) new = new"
      by (simp add: filter_id_conv)
    with new(1) none have "digests ?st' = new"
      by (simp add: digests_def)
    with new(3,4) r show ?thesis
      by (auto simp: digest_inv_def)
  qed
qed

lemma run_job_inv:
  assumes "distinct (map fst (db e))" and "digest_inv st"
  shows "digest_inv (run_job j e st)"
proof (cases j)
  case CheckPrayerTimes
  with assms(2) check_prayer_times_digest_frame [of e st] show ?thesis
    by (simp add: digest_inv_def)
next
  case DailySchedule
  with assms show ?thesis by (simp add: daily_schedule_inv)
next
  case DailyQuote
  with assms(2) send_daily_quote_digest_frame [of e st] show ?thesis
    by (simp add: digest_inv_def run_job_def)
qed

lemma run_jobs_inv:
  assumes "\<forall>x\<in>set js. distinct (map fst (db (snd x)))" and "digest_inv st"
  shows "digest_inv (run_jobs js st)"
  using assms
proof (induction js arbitrary: st)
  case Nil
  then show ?case by simp
next
  case (Cons x js)
  obtain j e where x: "x = (j, e)" by (cases x)
  with Cons.prems have "digest_inv (run_job j e st)"
    by (simp add: run_job_inv)
  with Cons x show ?case by simp
qed

lemma digest_inv_init: "digest_inv init_state"
  by (simp add: digest_inv_def digests_def init_state_def)

lemma at_most_one_per_key:
  "distinct (map fst xs) \<Longrightarrow> length (filter (\<lambda>x. fst x = c) xs) \<le> 1"
proof (induction xs)
  case Nil
  then show ?case by simp
next
  case (Cons x xs)
  show ?case
  proof (cases "fst x = c")
    case True
    with Cons.prems have "c \<notin> fst ` set xs" by simp
    then have "filter (\<lambda>x. fst x = c) xs = []"
      by (auto simp: filter_empty_conv)
    with True show ?thesis by simp
  next
    case False
    with Cons show ?thesis by simp
  qed
qed

lemma digest_at_most_once:
  assumes "\<forall>x\<in>set js. distinct (map fst (db (snd x)))"
  shows "length (filter (\<lambda>x. fst x = c \<and> is_schedule_msg (snd x))
           (outbox (run_jobs js init_state))) \<le> 1"
proof -
  have "distinct (map fst (digests (run_jobs js init_state)))"
    using run_jobs_inv [OF assms digest_inv_init] by (simp add: digest_inv_def)
  then have "length (filter (\<lambda>x. fst x = c) (digests (run_jobs js init_state))) \<le> 1"
    by (rule at_most_one_per_key)
  moreover have "filter (\<lambda>x. fst x = c) (digests (run_jobs js init_state))
      = filter (\<lambda>x. fst x = c \<and> is_schedule_msg (snd x)) (outbox (run_jobs js init_state))"
    by (simp add: digests_def conj_commute)
  ultimately show ?thesis by simp
qed

lemma strftime_hm_nonempty: "strftime_hm t \<noteq> []"
  by (simp add: strftime_hm_def)

lemma digest_user_due:
  assumes "local_now e (tz u) = Some now" and "hour now < 24" and "minute now < 60"
    and "parse_prayer_times e (city u) today st = (sched, st1)"
    and "map_of sched ''Fajr'' = Some (strftime_hm fajr)"
    and "hour fajr < 24" and "minute fajr < 60"
    and "schedule_id today (chat_id u) \<notin> set (sent_daily_schedules st)"
    and "deliver e (chat_id u) (ScheduleMsg sched)"
  shows "outbox (digest_user e today u st)
      = outbox st @ (if int (hour fajr * 60 + minute fajr) - int (hour now * 60 + minute now) = 10
                     then [(chat_id u, ScheduleMsg sched)] else [])"
    and "int (hour fajr * 60 + minute fajr) - int (hour now * 60 + minute now) = 10
      \<Longrightarrow> schedule_id today (chat_id u) \<in> set (sent_daily_schedules (digest_user e today u st))"
proof -
  note f = parse_frame [OF assms(4)]
  have ne: "sched \<noteq> []" using assms(5) by auto
  have tm: "to_minutes (strftime_hm fajr) = Inr (int (hour fajr * 60 + minute fajr))"
    using assms(6,7) by (rule to_minutes_strftime_hm)
  have nm: "to_minutes (strftime_hm now) = Inr (int (hour now * 60 + minute now))"
    using assms(2,3) by (rule to_minutes_strftime_hm)
  show "outbox (digest_user e today u st)
      = outbox st @ (if int (hour fajr * 60 + minute fajr) - int (hour now * 60 + minute now) = 10
                     then [(chat_id u, ScheduleMsg sched)] else [])"
    using assms(1,4,5,8,9) f ne tm nm
    by (simp add: digest_user_def Let_def strftime_hm_nonempty)
  show "schedule_id today (chat_id u) \<in> set (sent_daily_schedules (digest_user e today u st))"
    if "int (hour fajr * 60 + minute fajr) - int (hour now * 60 + minute now) = 10"
    using that assms(1,4,5,8,9) f ne tm nm
    by (simp add: digest_user_def Let_def strftime_hm_nonempty)
qed

lemma digest_user_already_sent:
  assumes "schedule_id today (chat_id u) \<in> set (sent_daily_schedules st)"
  shows "outbox (digest_user e today u st) = outbox st"
  using digest_user_cases [of e today u st] assms by auto

text \<open>
  C6. Two subscribers, Fajr at 04:37 in Moscow and at 04:50 in Kazan. The run of
  \<open>send_daily_prayer_schedule\<close> at 04:27 sends the digest to chat 42 and marks its key.
  At 04:40 chat 43 is ten minutes before Fajr and its key is not in the ledger, so the
  body of the user loop would send its digest; but the job stops in its pruning step
  with \<^verbatim>\<open>ValueError\<close>, and the digest of chat 43 is never sent.
\<close>

theorem digest_due_but_job_stopped:
  "run_jobs [(DailySchedule, two_city_env 4 27)] init_state
     = init_state\<lparr>cache := [\<lparr>ce_key = ''moscow_2024-01-15'', ce_value = example_schedule,
                                inserted_at = 1000\<rparr>,
                              \<lparr>ce_key = ''kazan_2024-01-15'', ce_value = kazan_schedule,
                                inserted_at = 1000\<rparr>],
                   sent_daily_schedules := [''2024-01-15-42''],
                   outbox := [(42, ScheduleMsg example_schedule)],
                   fetches := [''https://umma.ru/raspisanie-namaza/moscow'',
                               ''https://umma.ru/raspisanie-namaza/kazan'']\<rparr>
   \<and> outbox (digest_user (two_city_env 4 40) (utc_now (two_city_env 4 40)) kazan_user
         (run_jobs [(DailySchedule, two_city_env 4 27)] init_state))
       = [(42, ScheduleMsg example_schedule), (43, ScheduleMsg kazan_schedule)]
   \<and> send_daily_prayer_schedule (two_city_env 4 40)
         (run_jobs [(DailySchedule, two_city_env 4 27)] init_state) = Inl ValueError
   \<and> outbox (run_jobs [(DailySchedule, two_city_env 4 27), (DailySchedule, two_city_env 4 40)]
         init_state)
       = [(42, ScheduleMsg example_schedule)]"
proof -
  let ?e = "two_city_env 4 27"
  let ?A = "init_state\<lparr>cache := [\<lparr>ce_key = ''moscow_2024-01-15'', ce_value = example_schedule,
                                inserted_at = 1000\<rparr>],
                   sent_daily_schedules := [''2024-01-15-42''],
                   outbox := [(42, ScheduleMsg example_schedule)],
                   fetches := [''https://umma.ru/raspisanie-namaza/moscow'']\<rparr>"
  let ?B = "init_state\<lparr>cache := [\<lparr>ce_key = ''moscow_2024-01-15'', ce_value = example_schedule,
                                inserted_at = 1000\<rparr>,
                              \<lparr>ce_key = ''kazan_2024-01-15'', ce_value = kazan_schedule,
                                inserted_at = 1000\<rparr>],
                   sent_daily_schedules := [''2024-01-15-42''],
                   outbox := [(42, ScheduleMsg example_schedule)],
                   fetches := [''https://umma.ru/raspisanie-namaza/moscow'',
                               ''https://umma.ru/raspisanie-namaza/kazan'']\<rparr>"
  have us: "get_subscribed_users (db_ok ?e) (db ?e) = [moscow_user, kazan_user]"
    "get_subscribed_users (db_ok (two_city_env 4 40)) (db (two_city_env 4 40))
       = [moscow_user, kazan_user]"
    by (simp_all add: get_subscribed_users_def two_city_env_def example_env_def
        two_subscribers_def moscow_user_def kazan_user_def)
  have a: "digest_user ?e (utc_now ?e) moscow_user init_state = ?A"
    by (simp add: digest_user_def schedule_id_def moscow_user_def
        two_city_env_def example_env_def example_page_def example_schedule_def eval_simps)
  have b: "digest_user ?e (utc_now ?e) kazan_user ?A = ?B"
    by (simp add: digest_user_def schedule_id_def kazan_user_def
        two_city_env_def example_env_def kazan_page_def kazan_schedule_def eval_simps)
  have i: "init_state\<lparr>sent_daily_schedules := []\<rparr> = init_state"
    "sent_daily_schedules init_state = []"
    by (simp_all add: init_state_def)
  have "send_daily_prayer_schedule ?e init_state
      = Inr (digest_users ?e (utc_now ?e) [moscow_user, kazan_user] init_state)"
    by (simp add: send_daily_prayer_schedule_def us(1) i Let_def)
  also have "digest_users ?e (utc_now ?e) [moscow_user, kazan_user] init_state = ?B"
    by (simp only: digest_users.simps a b)
  finally have "run_job DailySchedule ?e init_state = ?B"
    by (simp add: run_job_def)
  then have 1: "run_jobs [(DailySchedule, ?e)] init_state = ?B"
    by simp
  have 2: "outbox (digest_user (two_city_env 4 40) (utc_now (two_city_env 4 40)) kazan_user ?B)
       = [(42, ScheduleMsg example_schedule), (43, ScheduleMsg kazan_schedule)]"
    by (simp add: digest_user_def schedule_id_def kazan_user_def
        two_city_env_def example_env_def example_schedule_def kazan_schedule_def eval_simps)
  have 3: "send_daily_prayer_schedule (two_city_env 4 40) ?B = Inl ValueError"
    by (simp add: send_daily_prayer_schedule_def us(2) init_state_def clean_schedules_raises
        Let_def del: clean_schedules.simps)
  have "run_job DailySchedule (two_city_env 4 40) ?B = logmsg (JobFailed ValueError) ?B"
    by (simp add: run_job_def 3)
  then have 4: "outbox (run_job DailySchedule (two_city_env 4 40) ?B)
      = [(42, ScheduleMsg example_schedule)]"
    by (simp add: logmsg_def)
  have r: "run_jobs [(DailySchedule, ?e), (DailySchedule, two_city_env 4 40)] init_state
      = run_job DailySchedule (two_city_env 4 40) (run_jobs [(DailySchedule, ?e)] init_state)"
    by simp
  show ?thesis
    unfolding r unfolding 1 using 2 3 4 by (intro conjI) (rule refl)
qed

section \<open>Schedules, fetched and cached\<close>

lemma find_row_first:
  "find_row d rows = Some r \<Longrightarrow>
     \<exists>pre cols post. rows = pre @ cols # post
       \<and> list_all (\<lambda>c. length c < 8 \<or> c ! 0 \<noteq> d) pre
       \<and> 8 \<le> length cols \<and> cols ! 0 = d
       \<and> r = [(''Fajr'', cols ! 2), (''Shuruk'', cols ! 3), (''Zuhr'', cols ! 4),
               (''Asr'', cols ! 5), (''Maghrib'', cols ! 6), (''Isha'', cols ! 7)]"
proof (induction rows)
  case Nil
  then show ?case by simp
next
  case (Cons c rows)
  show ?case
  proof (cases "8 \<le> length c \<and> c ! 0 = d")
    case True
    with Cons.prems show ?thesis
      by (intro exI [of _ "[]"] exI [of _ c] exI [of _ rows]) auto
  next
    case False
    with Cons.prems have "find_row d rows = Some r" by auto
    from Cons.IH [OF this] obtain pre cols post
      where "rows = pre @ cols # post" "list_all (\<lambda>c. length c < 8 \<or> c ! 0 \<noteq> d) pre"
        "8 \<le> length cols \<and> cols ! 0 = d"
        "r = [(''Fajr'', cols ! 2), (''Shuruk'', cols ! 3), (''Zuhr'', cols ! 4),
               (''Asr'', cols ! 5), (''Maghrib'', cols ! 6), (''Isha'', cols ! 7)]"
      by blast
    with False show ?thesis
      by (intro exI [of _ "c # pre"] exI [of _ cols] exI [of _ post]) auto
  qed
qed

lemma set_cache_set:
  "set (cache_set c now k v) \<subseteq> insert \<lparr>ce_key = k, ce_value = v, inserted_at = now\<rparr> (set c)"
  by (auto simp: cache_set_def Let_def dest: in_set_dropD)

lemma cache_set_inv:
  assumes "cache_inv c" and "map fst v = PRAYER_NAMES \<or> quote_key k"
  shows "cache_inv (cache_set c now k v)"
  using assms set_cache_set [of c now k v]
  by (auto simp: cache_inv_def list_all_iff)

lemma find_row_names: "find_row d rows = Some r \<Longrightarrow> map fst r = PRAYER_NAMES"
  using find_row_shape by blast

lemma parse_cache_inv:
  assumes "cache_inv (cache st)" and "parse_prayer_times e cty date st = (r, st')"
  shows "cache_inv (cache st')"
  using assms
  by (auto simp: parse_prayer_times_def logmsg_def Let_def cache_set_inv find_row_names
      split: option.splits page.splits)

lemma quote_key_intro: "map_of quote_urls qt = Some url \<Longrightarrow> quote_key (qt @ CHR ''_'' # rest)"
  by (auto simp: quote_key_def quote_urls_def split: if_splits)

lemma quote_cache_inv:
  assumes "cache_inv (cache st)" and "get_daily_quote e qt st = (r, st')"
  shows "cache_inv (cache st')"
  using assms
  by (auto simp: get_daily_quote_def logmsg_def Let_def quote_key_intro
      intro!: cache_set_inv split: option.splits quote_page.splits)

lemma notify_loop_cache: "cache (fst (notify_loop e u now sched st)) = cache st"
  by (induction e u now sched st rule: notify_loop.induct)
    (auto simp: Let_def split: sum.splits)

lemma check_user_cache_inv: "cache_inv (cache st) \<Longrightarrow> cache_inv (cache (check_user e u st))"
proof (cases "local_now e (tz u)")
  case None
  assume "cache_inv (cache st)"
  with None show ?thesis by (simp add: check_user_def logmsg_def)
next
  case (Some now)
  assume inv: "cache_inv (cache st)"
  obtain sched st1 where p: "parse_prayer_times e (city u) now st = (sched, st1)"
    by (cases "parse_prayer_times e (city u) now st")
  obtain st2 r where n: "notify_loop e u now sched st1 = (st2, r)"
    by (cases "notify_loop e u now sched st1")
  from notify_loop_cache [of e u now sched st1] n have "cache st2 = cache st1"
    by simp
  with parse_cache_inv [OF inv p] have "cache_inv (cache st1)" "cache_inv (cache st2)"
    by simp_all
  with Some p n show ?thesis
    by (cases r) (simp_all add: check_user_def logmsg_def)
qed

lemma check_users_cache_inv:
  "cache_inv (cache st) \<Longrightarrow> cache_inv (cache (check_users e us st))"
  by (induction us arbitrary: st) (simp_all add: check_user_cache_inv)

lemma digest_user_cache_inv:
  assumes "cache_inv (cache st)"
  shows "cache_inv (cache (digest_user e today u st))"
proof (cases "local_now e (tz u)")
  case None
  with assms show ?thesis by (simp add: digest_user_def logmsg_def)
next
  case (Some now)
  obtain sched st1 where p: "parse_prayer_times e (city u) today st = (sched, st1)"
    by (cases "parse_prayer_times e (city u) today st")
  from parse_cache_inv [OF assms p] have "cache_inv (cache st1)" .
  with Some p show ?thesis
    by (auto simp: digest_user_def logmsg_def Let_def split: option.splits sum.splits)
qed

lemma digest_users_cache_inv:
  "cache_inv (cache st) \<Longrightarrow> cache_inv (cache (digest_users e today us st))"
  by (induction us arbitrary: st) (simp_all add: digest_user_cache_inv)

lemma quote_users_cache: "cache (quote_users e q us st) = cache st"
  by (induction us arbitrary: st) (simp_all add: quote_user_def logmsg_def split: option.splits)

lemma run_job_cache_inv:
  assumes "cache_inv (cache st)"
  shows "cache_inv (cache (run_job j e st))"
proof (cases j)
  case CheckPrayerTimes
  have "cache_inv (cache (st\<lparr>sent_notifications := ks, log := lg\<rparr>))" for ks lg
    using assms by simp
  with assms CheckPrayerTimes show ?thesis
    by (simp add: run_job_def check_prayer_times_def clean_notifications_drops_all Let_def
        logmsg_def check_users_cache_inv)
next
  case DailySchedule
  have a: "cache_inv (cache (st\<lparr>sent_daily_schedules := ks\<rparr>))" for ks
    using assms by simp
  show ?thesis
  proof (cases "send_daily_prayer_schedule e st")
    case (Inl err)
    with assms DailySchedule show ?thesis by (simp add: run_job_def logmsg_def)
  next
    case (Inr st')
    then have "cache_inv (cache st')"
      using assms a
      by (auto simp: send_daily_prayer_schedule_def Let_def logmsg_def digest_users_cache_inv
          split: if_splits sum.splits)
    with Inr DailySchedule show ?thesis by (simp add: run_job_def)
  qed
next
  case DailyQuote
  obtain q st1 where g: "get_daily_quote e ''ayat'' st = (q, st1)"
    by (cases "get_daily_quote e ''ayat'' st")
  from quote_cache_inv [OF assms g] have "cache_inv (cache st1)" .
  with assms g DailyQuote show ?thesis
    by (simp add: run_job_def send_daily_quote_def Let_def logmsg_def quote_users_cache)
qed

lemma run_jobs_cache_inv:
  "cache_inv (cache st) \<Longrightarrow> cache_inv (cache (run_jobs js st))"
proof (induction js arbitrary: st)
  case Nil
  then show ?case by simp
next
  case (Cons x js)
  obtain j e where "x = (j, e)" by (cases x)
  with Cons show ?case by (simp add: run_job_cache_inv)
qed

lemma cache_inv_init: "cache_inv (cache init_state)"
  by (simp add: cache_inv_def init_state_def)

lemma take_prefix_eq:
  assumes "CHR ''_'' \<notin> set a" and "CHR ''_'' \<notin> set b"
    and "take (Suc (length b)) (a @ CHR ''_'' # x) = b @ ''_''"
  shows "a = b"
  using assms
proof (induction b arbitrary: a)
  case Nil
  then show ?case by (cases a) auto
next
  case (Cons q qs)
  then show ?case by (cases a) auto
qed

lemma city_code_not_quote_key:
  assumes "cty \<in> snd ` set CITIES"
  shows "\<not> quote_key (cty @ ''_'' @ rest)"
proof
  assume "quote_key (cty @ ''_'' @ rest)"
  then have "take (Suc (length ''ayat'')) (cty @ ''_'' @ rest) = ''ayat'' @ ''_''
      \<or> take (Suc (length ''hadis'')) (cty @ ''_'' @ rest) = ''hadis'' @ ''_''"
    by (simp only: quote_key_def quote_urls_def list.map list_ex_Nil_iff list_ex_Cons_iff
        fst_conv simp_thms)
  then have t: "take (Suc (length ''ayat'')) (cty @ CHR ''_'' # rest) = ''ayat'' @ ''_''
      \<or> take (Suc (length ''hadis'')) (cty @ CHR ''_'' # rest) = ''hadis'' @ ''_''"
    by (simp only: append_Cons append_Nil)
  from assms have c: "CHR ''_'' \<notin> set cty" "cty \<noteq> ''ayat''" "cty \<noteq> ''hadis''"
    by (auto simp: CITIES_def)
  have q: "CHR ''_'' \<notin> set ''ayat''" "CHR ''_'' \<notin> set ''hadis''"
    by simp_all
  from t show False
  proof
    assume "take (Suc (length ''ayat'')) (cty @ CHR ''_'' # rest) = ''ayat'' @ ''_''"
    from take_prefix_eq [OF c(1) q(1) this] c(2) show False by contradiction
  next
    assume "take (Suc (length ''hadis'')) (cty @ CHR ''_'' # rest) = ''hadis'' @ ''_''"
    from take_prefix_eq [OF c(1) q(2) this] c(3) show False by contradiction
  qed
qed

lemma cache_get_SomeD:
  "cache_get c now k = Some v \<Longrightarrow> \<exists>en\<in>set c. ce_key en = k \<and> ce_value en = v"
proof -
  assume a: "cache_get c now k = Some v"
  then obtain en rest where f: "filter (\<lambda>en. ce_key en = k \<and> \<not> expired now en) c = en # rest"
    and v: "v = ce_value en"
    by (auto simp: cache_get_def split: list.splits)
  from f have "en \<in> set (filter (\<lambda>en. ce_key en = k \<and> \<not> expired now en) c)"
    by simp
  with v show ?thesis by auto
qed

lemma cached_schedule_names:
  assumes "cache_inv c" and "cty \<in> snd ` set CITIES"
    and "cache_get c now (cty @ ''_'' @ d) = Some v"
  shows "map fst v = PRAYER_NAMES"
proof -
  from cache_get_SomeD [OF assms(3)] obtain en
    where en: "en \<in> set c" "ce_key en = cty @ ''_'' @ d" "ce_value en = v"
    by blast
  with assms(1) have "map fst v = PRAYER_NAMES \<or> quote_key (cty @ ''_'' @ d)"
    by (auto simp: cache_inv_def list_all_iff)
  with city_code_not_quote_key [OF assms(2)] show ?thesis
    by blast
qed

text \<open>
  C9, as the code has it. A schedule that \<open>parse_prayer_times\<close> builds from a fetched
  page is empty, or it has exactly the six prayer names, in order, each with the text
  of its cell: cells 2 to 7 of the first row of the page that has at least eight cells
  and the day of the month in its first cell. In every state the jobs reach from the
  start of the process, fetched or cached, the schedule of a city of \<open>CITIES\<close> is empty
  or has exactly the six names in order. With an empty schedule \<open>check_user\<close> sends and
  marks nothing. The cell texts are not checked.
\<close>

theorem parsed_schedule_six_cells:
  "(cache_get (cache st) (clock e) (cty @ ''_'' @ strftime_ymd date) = None
      \<and> parse_prayer_times e cty date st = (r, st')
    \<longrightarrow> r = []
        \<or> (\<exists>pre cols post. fetch_page e cty = Rows (pre @ cols # post)
              \<and> list_all (\<lambda>c. length c < 8 \<or> c ! 0 \<noteq> str_nat (day date)) pre
              \<and> 8 \<le> length cols \<and> cols ! 0 = str_nat (day date)
              \<and> r = [(''Fajr'', cols ! 2), (''Shuruk'', cols ! 3), (''Zuhr'', cols ! 4),
                        (''Asr'', cols ! 5), (''Maghrib'', cols ! 6), (''Isha'', cols ! 7)]))
   \<and> (cty \<in> snd ` set CITIES
        \<and> parse_prayer_times e cty date (run_jobs js init_state) = (r', st'')
      \<longrightarrow> r' = [] \<or> map fst r' = PRAYER_NAMES)
   \<and> (local_now e (tz u) = Some now \<and> parse_prayer_times e (city u) now st = ([], st1)
      \<longrightarrow> outbox (check_user e u st) = outbox st
          \<and> sent_notifications (check_user e u st) = sent_notifications st)"
proof (intro conjI impI)
  assume "cache_get (cache st) (clock e) (cty @ ''_'' @ strftime_ymd date) = None
      \<and> parse_prayer_times e cty date st = (r, st')"
  then have a: "cache_get (cache st) (clock e) (cty @ ''_'' @ strftime_ymd date) = None"
    "parse_prayer_times e cty date st = (r, st')"
    by simp_all
  show "r = []
        \<or> (\<exists>pre cols post. fetch_page e cty = Rows (pre @ cols # post)
              \<and> list_all (\<lambda>c. length c < 8 \<or> c ! 0 \<noteq> str_nat (day date)) pre
              \<and> 8 \<le> length cols \<and> cols ! 0 = str_nat (day date)
              \<and> r = [(''Fajr'', cols ! 2), (''Shuruk'', cols ! 3), (''Zuhr'', cols ! 4),
                        (''Asr'', cols ! 5), (''Maghrib'', cols ! 6), (''Isha'', cols ! 7)])"
  proof (cases "fetch_page e cty")
    case (Rows rows)
    show ?thesis
    proof (cases "find_row (str_nat (day date)) rows")
      case None
      with a Rows show ?thesis by (simp add: parse_prayer_times_def Let_def)
    next
      case (Some s)
      with a Rows have "r = s" by (simp add: parse_prayer_times_def Let_def)
      with find_row_first [OF Some] Rows show ?thesis by auto
    qed
  qed (use a in \<open>simp_all add: parse_prayer_times_def Let_def\<close>)
next
  assume b: "cty \<in> snd ` set CITIES
        \<and> parse_prayer_times e cty date (run_jobs js init_state) = (r', st'')"
  let ?st = "run_jobs js init_state"
  have inv: "cache_inv (cache ?st)"
    using cache_inv_init by (rule run_jobs_cache_inv)
  show "r' = [] \<or> map fst r' = PRAYER_NAMES"
  proof (cases "cache_get (cache ?st) (clock e) (cty @ ''_'' @ strftime_ymd date)")
    case (Some v)
    with b have "r' = v" by (simp add: parse_prayer_times_def)
    with cached_schedule_names [OF inv _ Some] b show ?thesis by simp
  next
    case None
    show ?thesis
    proof (cases "fetch_page e cty")
      case (Rows rows)
      show ?thesis
      proof (cases "find_row (str_nat (day date)) rows")
        case n: None
        with b None Rows show ?thesis by (simp add: parse_prayer_times_def Let_def)
      next
        case (Some s)
        with b None Rows have "r' = s" by (simp add: parse_prayer_times_def Let_def)
        with find_row_names [OF Some] show ?thesis by simp
      qed
    qed (use b None in \<open>simp_all add: parse_prayer_times_def Let_def\<close>)
  qed
next
  assume "local_now e (tz u) = Some now \<and> parse_prayer_times e (city u) now st = ([], st1)"
  then show "outbox (check_user e u st) = outbox st"
    and "sent_notifications (check_user e u st) = sent_notifications st"
    using check_user_empty_schedule by blast+
qed

theorem parsed_schedule_six_cells_witness:
  "parse_prayer_times (example_env one_subscriber 4 37) ''moscow'' (at_time 4 37) init_state
     = (example_schedule, warm_state)
   \<and> (\<exists>pre cols post.
         fetch_page (example_env one_subscriber 4 37) ''moscow'' = Rows (pre @ cols # post)
         \<and> list_all (\<lambda>c. length c < 8 \<or> c ! 0 \<noteq> ''15'') pre
         \<and> 8 \<le> length cols \<and> cols ! 0 = ''15''
         \<and> example_schedule = [(''Fajr'', cols ! 2), (''Shuruk'', cols ! 3), (''Zuhr'', cols ! 4),
                        (''Asr'', cols ! 5), (''Maghrib'', cols ! 6), (''Isha'', cols ! 7)])
   \<and> fst (parse_prayer_times later_env ''moscow'' (at_time 4 37)
            (run_jobs [(CheckPrayerTimes, example_env one_subscriber 4 37)] init_state))
       = example_schedule
   \<and> map fst example_schedule = PRAYER_NAMES
   \<and> fst (parse_prayer_times offline_env ''moscow'' (at_time 4 37) init_state) = []
   \<and> outbox (check_user offline_env moscow_user init_state) = []"
proof -
  let ?e = "example_env one_subscriber 4 37"
  let ?run = "run_jobs [(CheckPrayerTimes, ?e)] init_state"
  have p1: "parse_prayer_times ?e ''moscow'' (at_time 4 37) init_state
      = (example_schedule, warm_state)"
    by (simp add: example_env_def example_page_def at_time_def example_schedule_def
        warm_state_def eval_simps)
  have m: "cache_get (cache init_state) (clock ?e)
             (''moscow'' @ ''_'' @ strftime_ymd (at_time 4 37)) = None"
    by (simp add: cache_get_def init_state_def)
  have ne: "example_schedule \<noteq> []"
    by (simp add: example_schedule_def)
  have d: "str_nat (day (at_time 4 37)) = ''15''"
    by (simp add: at_time_def eval_simps)
  have cm: "''moscow'' \<in> snd ` set CITIES"
    by (simp add: CITIES_def)
  have h: "fst (parse_prayer_times later_env ''moscow'' (at_time 4 37) ?run) = example_schedule"
    by (simp add: later_env_def example_env_def one_subscriber_def example_page_def at_time_def
        example_schedule_def eval_simps)
  then have h': "parse_prayer_times later_env ''moscow'' (at_time 4 37) ?run
      = (example_schedule, snd (parse_prayer_times later_env ''moscow'' (at_time 4 37) ?run))"
    by (metis prod.collapse)
  have l: "local_now offline_env (tz moscow_user) = Some (at_time 4 37)"
    by (simp add: offline_env_def example_env_def moscow_user_def at_time_def)
  have p2: "fst (parse_prayer_times offline_env (city moscow_user) (at_time 4 37) init_state) = []"
    by (simp add: offline_env_def example_env_def parse_prayer_times_def cache_get_def
        init_state_def Let_def)
  then have p2': "parse_prayer_times offline_env (city moscow_user) (at_time 4 37) init_state
      = ([], snd (parse_prayer_times offline_env (city moscow_user) (at_time 4 37) init_state))"
    by (metis prod.collapse)
  note a = parsed_schedule_six_cells
    [where st = init_state and e = ?e and cty = "''moscow''"
       and date = "at_time 4 37" and r = example_schedule and st' = warm_state]
  note b = parsed_schedule_six_cells
    [where e = later_env and cty = "''moscow''" and date = "at_time 4 37"
       and js = "[(CheckPrayerTimes, ?e)]" and r' = example_schedule
       and st'' = "snd (parse_prayer_times later_env ''moscow'' (at_time 4 37) ?run)"]
  note c = parsed_schedule_six_cells
    [where st = init_state and e = offline_env and u = moscow_user and now = "at_time 4 37"
       and ?st1.0 = "snd (parse_prayer_times offline_env (city moscow_user) (at_time 4 37) init_state)"]
  from a m p1 ne
  have "\<exists>pre cols post. fetch_page ?e ''moscow'' = Rows (pre @ cols # post)
         \<and> list_all (\<lambda>c. length c < 8 \<or> c ! 0 \<noteq> str_nat (day (at_time 4 37))) pre
         \<and> 8 \<le> length cols \<and> cols ! 0 = str_nat (day (at_time 4 37))
         \<and> example_schedule = [(''Fajr'', cols ! 2), (''Shuruk'', cols ! 3), (''Zuhr'', cols ! 4),
                        (''Asr'', cols ! 5), (''Maghrib'', cols ! 6), (''Isha'', cols ! 7)]"
    by blast
  then have w1: "\<exists>pre cols post. fetch_page ?e ''moscow'' = Rows (pre @ cols # post)
         \<and> list_all (\<lambda>c. length c < 8 \<or> c ! 0 \<noteq> ''15'') pre
         \<and> 8 \<le> length cols \<and> cols ! 0 = ''15''
         \<and> example_schedule = [(''Fajr'', cols ! 2), (''Shuruk'', cols ! 3), (''Zuhr'', cols ! 4),
                        (''Asr'', cols ! 5), (''Maghrib'', cols ! 6), (''Isha'', cols ! 7)]"
    by (simp only: d)
  from b cm h' ne have w2: "map fst example_schedule = PRAYER_NAMES"
    by blast
  have "outbox (check_user offline_env moscow_user init_state) = outbox init_state"
    using c l p2' by blast
  then have w3: "outbox (check_user offline_env moscow_user init_state) = []"
    by (simp add: init_state_def)
  have cc: "city moscow_user = ''moscow''"
    by (simp add: moscow_user_def)
  from p1 w1 h w2 p2 [unfolded cc] w3 show ?thesis
    by (intro conjI)
qed

end
